theory Spec2Isabelle
  imports Main
begin

text \<open>
  The offline-first synchronisation engine of the point-of-sale client, embedded from its
  sources:
  \<^item> the offline store \<open>useOfflineStore\<close> (\<open>store/offlineStore.ts\<close>);
  \<^item> \<open>OnlineApiService\<close>, \<open>NetworkError\<close>, \<open>ApiError\<close> and \<open>isNetworkError\<close>
    (\<open>services/onlineApiService.ts\<close>);
  \<^item> \<open>secureInvoke\<close> (\<open>utils/apiInterceptor.ts\<close>);
  \<^item> \<open>OnlineFirstService\<close>, the operation router (\<open>services/onlineFirstService.ts\<close>), and
    \<open>SyncService\<close>, the reconciliation loop (\<open>services/syncService.ts\<close>);
  \<^item> the services a replay goes through: \<open>services/inventoryService.ts\<close>,
    \<open>services/posService.ts\<close> and \<open>services/userService.ts\<close>.

  An asynchronous function is a function from the engine state to a result, which is the
  thrown value or the returned one, and the next state. What lies outside the engine (the
  network, the Tauri backend, the platform signal, the clock) answers through oracles, and
  the effects that leave the engine are recorded in a trace.
\<close>

section \<open>JavaScript values\<close>

text \<open>
  Payloads, server results and Tauri command arguments have the TypeScript type \<open>any\<close>.
  They are modelled as JSON-like values. Numbers are integers (identifiers and HTTP
  statuses are; \<open>NaN\<close> and fractions do not occur in the modelled paths), strings are
  byte strings.
\<close>

datatype json =
    JUndefined
  | JNull
  | JBool bool
  | JNum int
  | JStr string
  | JArr "json list"
  | JObj "(string \<times> json) list"

text \<open>Values a JavaScript \<open>throw\<close> can carry in the modelled code.\<close>

datatype js_error =
    NetworkError string
  | ApiError nat string
  | TypeError string
  | Error string
  | Thrown json

text \<open>\<open>a || b\<close> and \<open>if (a)\<close> test truthiness.\<close>

fun truthy :: "json \<Rightarrow> bool" where
  "truthy JUndefined = False"
| "truthy JNull = False"
| "truthy (JBool b) = b"
| "truthy (JNum n) = (n \<noteq> 0)"
| "truthy (JStr s) = (s \<noteq> [])"
| "truthy (JArr xs) = True"
| "truthy (JObj fs) = True"

definition nullish :: "json \<Rightarrow> bool" where
  "nullish v = (v = JUndefined \<or> v = JNull)"

text \<open>
  Property read \<open>v.k\<close> for a named property \<open>k\<close> (never \<open>length\<close> or an index in the
  modelled code): a TypeError on \<open>undefined\<close> and \<open>null\<close>, the field of an object,
  \<open>undefined\<close> where the property is missing.
\<close>

definition obj_get :: "(string \<times> json) list \<Rightarrow> string \<Rightarrow> json" where
  "obj_get fs k = (case map_of fs k of None \<Rightarrow> JUndefined | Some v \<Rightarrow> v)"

fun member :: "json \<Rightarrow> string \<Rightarrow> js_error + json" where
  "member JUndefined k = Inl (TypeError (''Cannot read properties of undefined (reading '' @ k @ '')''))"
| "member JNull k = Inl (TypeError (''Cannot read properties of null (reading '' @ k @ '')''))"
| "member (JObj fs) k = Inr (obj_get fs k)"
| "member v k = Inr JUndefined"

text \<open>Optional chaining \<open>v?.k\<close>.\<close>

definition opt_member :: "json \<Rightarrow> string \<Rightarrow> json" where
  "opt_member v k = (case member v k of Inl e \<Rightarrow> JUndefined | Inr x \<Rightarrow> x)"

text \<open>Object literals: a later key replaces an earlier one and keeps its position.\<close>

fun obj_set :: "(string \<times> json) list \<Rightarrow> string \<Rightarrow> json \<Rightarrow> (string \<times> json) list" where
  "obj_set [] k v = [(k, v)]"
| "obj_set ((k', v') # fs) k v = (if k' = k then (k, v) # fs else (k', v') # obj_set fs k v)"

definition obj_merge :: "(string \<times> json) list \<Rightarrow> (string \<times> json) list \<Rightarrow> (string \<times> json) list" where
  "obj_merge fs gs = foldl (\<lambda>acc (k, v). obj_set acc k v) fs gs"

text \<open>Decimal rendering of a number, as a template literal does.\<close>

definition digit :: "nat \<Rightarrow> char" where
  "digit n = ''0123456789'' ! n"

fun show_nat :: "nat \<Rightarrow> string" where
  "show_nat n = (if n < 10 then [digit n] else show_nat (n div 10) @ [digit (n mod 10)])"

declare show_nat.simps [simp del]

text \<open>The own enumerable properties that an object spread \<open>{...v}\<close> copies.\<close>

fun spread :: "json \<Rightarrow> (string \<times> json) list" where
  "spread (JObj fs) = fs"
| "spread (JArr xs) = zip (map show_nat [0..<length xs]) xs"
| "spread (JStr s) = zip (map show_nat [0..<length s]) (map (\<lambda>c. JStr [c]) s)"
| "spread v = []"

fun join_comma :: "string list \<Rightarrow> string" where
  "join_comma [] = []"
| "join_comma [x] = x"
| "join_comma (x # y # ys) = x @ '','' @ join_comma (y # ys)"

text \<open>\<open>String(v)\<close>, the conversion a template literal \<open>`${v}`\<close> applies.\<close>

fun to_string :: "json \<Rightarrow> string" where
  "to_string JUndefined = ''undefined''"
| "to_string JNull = ''null''"
| "to_string (JBool b) = (if b then ''true'' else ''false'')"
| "to_string (JNum n) = (if n < 0 then ''-'' @ show_nat (nat (- n)) else show_nat (nat n))"
| "to_string (JStr s) = s"
| "to_string (JArr xs) =
     join_comma (map (\<lambda>x. if x = JUndefined \<or> x = JNull then [] else to_string x) xs)"
| "to_string (JObj fs) = ''[object Object]''"

text \<open>\<open>s.split(c)\<close> for a one-character separator.\<close>

fun split_on :: "char \<Rightarrow> string \<Rightarrow> string list" where
  "split_on c [] = [[]]"
| "split_on c (x # xs) =
     (if x = c then [] # split_on c xs
      else (case split_on c xs of [] \<Rightarrow> [[x]] | y # ys \<Rightarrow> (x # y) # ys))"

text \<open>\<open>xs[i]\<close> on an array of strings: \<open>undefined\<close> out of range.\<close>

definition at_index :: "string list \<Rightarrow> nat \<Rightarrow> string option" where
  "at_index xs i = (if i < length xs then Some (xs ! i) else None)"

text \<open>\<open>s.toUpperCase()\<close> on the ASCII letters.\<close>

definition upper_char :: "char \<Rightarrow> char" where
  "upper_char c =
     (let n = (of_char c :: nat)
      in if 97 \<le> n \<and> n \<le> 122 then char_of (n - 32) else c)"

definition toUpperCase :: "string \<Rightarrow> string" where
  "toUpperCase s = map upper_char s"

text \<open>\<open>s.includes(t)\<close>.\<close>

fun str_includes :: "string \<Rightarrow> string \<Rightarrow> bool" where
  "str_includes [] t = (t = [])"
| "str_includes (x # xs) t = (take (length t) (x # xs) = t \<or> str_includes xs t)"

section \<open>The environment\<close>

text \<open>An HTTP request as axios sends it (the constant base URL is left out of \<open>url\<close>).\<close>

record request =
  http_method :: string
  url :: string
  body :: json
  timeout :: nat

record axios_response =
  status :: nat
  rdata :: json

record axios_error =
  code :: "string option"
  message :: string
  response :: "axios_response option"

text \<open>What a caller hands to \<open>addToQueue\<close>: a QueuedOperation without id, timestamp and retryCount.\<close>

record queue_request =
  req_entity :: string
  req_type :: string
  req_data :: json
  req_maxRetries :: nat

text \<open>
  Everything outside the engine is an oracle indexed by the number of environment
  interactions that happened before: the platform signal \<open>navigator.onLine\<close>, the network
  (a transport failure as the AxiosError axios rejects with, or the response received),
  the Tauri backend behind \<open>invoke\<close> (the rejected value or the result), the token of the
  auth store, \<open>Date.now()\<close>, the identifier that
  \<open>`${Date.now()}-${Math.random().toString(36).substr(2, 9)}`\<close> yields, and the
  enqueue requests other tasks issue while the reconciliation pass awaits a replay.
\<close>

record world =
  navigator_onLine :: "nat \<Rightarrow> bool"
  transport :: "nat \<Rightarrow> request \<Rightarrow> axios_error + axios_response"
  tauri :: "nat \<Rightarrow> string \<Rightarrow> json \<Rightarrow> json + json"
  authToken :: "nat \<Rightarrow> string option"
  date_now :: "nat \<Rightarrow> nat"
  new_id :: "nat \<Rightarrow> string"
  arrivals :: "nat \<Rightarrow> queue_request list"

section \<open>The offline store and the engine state\<close>

record QueuedOperation =
  op_id :: string
  type :: string
  entity :: string
  data :: json
  timestamp :: nat
  retryCount :: nat
  maxRetries :: nat

datatype callback = DispatchTriggerSync | CallPerformSync

text \<open>
  Effects that leave the engine, in the order they happen, with the store's queue
  mutations and the replay attempts recorded among them.
\<close>

datatype event =
    Remote request
  | Local string json
  | Toast string
  | ToastError string
  | Logout
  | Redirect string
  | Enqueue QueuedOperation
  | Attempt QueuedOperation
  | Synced string
  | SyncFailed string
  | Evicted string

text \<open>
  The state of \<open>useOfflineStore\<close> (without \<open>offlineData\<close>, which no modelled function
  touches), the fields of \<open>SyncService\<close>, the pending \<open>setTimeout\<close> callbacks with their
  delay, the effect trace and the interaction counter.
\<close>

record engine =
  isOnline :: bool
  syncQueue :: "QueuedOperation list"
  isSyncing :: bool
  lastSyncAttempt :: "nat option"
  syncErrors :: "string list"
  syncInterval :: "nat option"
  isInitialized :: bool
  timeouts :: "(nat \<times> callback) list"
  trace :: "event list"
  clock :: nat

type_synonym 'a io = "engine \<Rightarrow> (js_error + 'a) \<times> engine"

text \<open>Sequencing of awaited calls, \<open>try { } catch (error) { }\<close>, \<open>return\<close> and \<open>throw\<close>.\<close>

definition andThen :: "'a io \<Rightarrow> ('a \<Rightarrow> 'b io) \<Rightarrow> 'b io" where
  "andThen m f st = (case m st of (Inl e, st1) \<Rightarrow> (Inl e, st1) | (Inr v, st1) \<Rightarrow> f v st1)"

definition tryCatch :: "'a io \<Rightarrow> (js_error \<Rightarrow> 'a io) \<Rightarrow> 'a io" where
  "tryCatch m h st = (case m st of (Inl e, st1) \<Rightarrow> h e st1 | (Inr v, st1) \<Rightarrow> (Inr v, st1))"

definition resolve :: "'a \<Rightarrow> 'a io" where
  "resolve v st = (Inr v, st)"

definition reject :: "js_error \<Rightarrow> 'a io" where
  "reject e st = (Inl e, st)"

definition settle :: "js_error + 'a \<Rightarrow> 'a io" where
  "settle r st = (r, st)"

definition emit :: "event \<Rightarrow> engine \<Rightarrow> engine" where
  "emit ev st = st\<lparr>trace := trace st @ [ev]\<rparr>"

definition tick :: "engine \<Rightarrow> engine" where
  "tick st = st\<lparr>clock := clock st + 1\<rparr>"

subsection \<open>Store actions (offlineStore.ts)\<close>

definition setOnlineStatus :: "bool \<Rightarrow> engine \<Rightarrow> engine" where
  "setOnlineStatus online st =
     (let st1 = st\<lparr>isOnline := online\<rparr>
      in if online \<and> length (syncQueue st1) > 0
         then st1\<lparr>timeouts := timeouts st1 @ [(1000, DispatchTriggerSync)]\<rparr>
         else st1)"

definition addToQueue :: "world \<Rightarrow> queue_request \<Rightarrow> engine \<Rightarrow> engine" where
  "addToQueue w operation st =
     (let newOperation = \<lparr>
            op_id = new_id w (clock st),
            type = req_type operation,
            entity = req_entity operation,
            data = req_data operation,
            timestamp = date_now w (clock st),
            retryCount = 0,
            maxRetries = (if req_maxRetries operation = 0 then 3 else req_maxRetries operation)\<rparr>
      in emit (Enqueue newOperation) (tick (st\<lparr>syncQueue := syncQueue st @ [newOperation]\<rparr>)))"

definition removeFromQueue :: "string \<Rightarrow> engine \<Rightarrow> engine" where
  "removeFromQueue operationId st =
     st\<lparr>syncQueue := filter (\<lambda>op. op_id op \<noteq> operationId) (syncQueue st)\<rparr>"

definition setSyncing :: "world \<Rightarrow> bool \<Rightarrow> engine \<Rightarrow> engine" where
  "setSyncing w syncing st =
     (if syncing
      then tick (st\<lparr>isSyncing := syncing, lastSyncAttempt := Some (date_now w (clock st))\<rparr>)
      else st\<lparr>isSyncing := syncing, lastSyncAttempt := lastSyncAttempt st\<rparr>)"

definition incrementRetryCount :: "string \<Rightarrow> engine \<Rightarrow> engine" where
  "incrementRetryCount operationId st =
     st\<lparr>syncQueue :=
          map (\<lambda>op. if op_id op = operationId then op\<lparr>retryCount := retryCount op + 1\<rparr> else op)
            (syncQueue st)\<rparr>"

definition addSyncError :: "string \<Rightarrow> engine \<Rightarrow> engine" where
  "addSyncError error st = st\<lparr>syncErrors := syncErrors st @ [error]\<rparr>"

definition clearSyncErrors :: "engine \<Rightarrow> engine" where
  "clearSyncErrors st = st\<lparr>syncErrors := []\<rparr>"


section \<open>OnlineApiService (onlineApiService.ts)\<close>

text \<open>
  axios settles a request: a transport failure rejects; a received response resolves when
  \<open>validateStatus\<close> accepts its status and rejects otherwise with an AxiosError that
  carries the response.
\<close>

definition bad_status :: "axios_response \<Rightarrow> axios_error" where
  "bad_status r =
     \<lparr>code = (if 400 \<le> status r \<and> status r < 500 then Some ''ERR_BAD_REQUEST''
              else if 500 \<le> status r \<and> status r < 600 then Some ''ERR_BAD_RESPONSE''
              else None),
      message = ''Request failed with status code '' @ show_nat (status r),
      response = Some r\<rparr>"

definition axios :: "world \<Rightarrow> (nat \<Rightarrow> bool) \<Rightarrow> request \<Rightarrow> engine
    \<Rightarrow> (axios_error + axios_response) \<times> engine" where
  "axios w validateStatus req st =
     ((case transport w (clock st) req of
         Inl err \<Rightarrow> Inl err
       | Inr r \<Rightarrow> if validateStatus (status r) then Inr r else Inl (bad_status r)),
      emit (Remote req) (tick st))"

definition handleError :: "axios_error \<Rightarrow> js_error" where
  "handleError error =
     (if code error = Some ''ECONNREFUSED'' \<or>
         code error = Some ''ENOTFOUND'' \<or>
         code error = Some ''ECONNABORTED'' \<or>
         response error = None
      then NetworkError (message error)
      else ApiError
             (case response error of
                None \<Rightarrow> 500
              | Some r \<Rightarrow> if status r = 0 then 500 else status r)
             (case response error of
                None \<Rightarrow> message error
              | Some r \<Rightarrow>
                  (let m = (if nullish (rdata r) then JUndefined else opt_member (rdata r) ''message'')
                   in if truthy m then to_string m else message error)))"

fun isNetworkError :: "js_error \<Rightarrow> bool" where
  "isNetworkError (NetworkError m) = True"
| "isNetworkError e = False"

fun isApiError :: "js_error \<Rightarrow> bool" where
  "isApiError (ApiError s m) = True"
| "isApiError e = False"

definition checkConnectivity :: "world \<Rightarrow> engine \<Rightarrow> bool \<times> engine" where
  "checkConnectivity w st =
     (case axios w (\<lambda>s. s < 500)
             \<lparr>http_method = ''GET'', url = ''/auth/me'', body = JUndefined, timeout = 5000\<rparr> st of
        (Inr resp, st1) \<Rightarrow> (status resp < 500, st1)
      | (Inl err, st1) \<Rightarrow> (False, st1))"

definition api_request :: "world \<Rightarrow> request \<Rightarrow> json io" where
  "api_request w req st =
     (case axios w (\<lambda>s. 200 \<le> s \<and> s < 300) req st of
        (Inr resp, st1) \<Rightarrow> (Inr (rdata resp), st1)
      | (Inl err, st1) \<Rightarrow> (Inl (handleError err), st1))"

definition api_get :: "world \<Rightarrow> string \<Rightarrow> json io" where
  "api_get w endpoint =
     api_request w \<lparr>http_method = ''GET'', url = endpoint, body = JUndefined, timeout = 10000\<rparr>"

definition api_post :: "world \<Rightarrow> string \<Rightarrow> json \<Rightarrow> json io" where
  "api_post w endpoint d =
     api_request w \<lparr>http_method = ''POST'', url = endpoint, body = d, timeout = 10000\<rparr>"

definition api_put :: "world \<Rightarrow> string \<Rightarrow> json \<Rightarrow> json io" where
  "api_put w endpoint d =
     api_request w \<lparr>http_method = ''PUT'', url = endpoint, body = d, timeout = 10000\<rparr>"

definition api_delete :: "world \<Rightarrow> string \<Rightarrow> json io" where
  "api_delete w endpoint =
     api_request w \<lparr>http_method = ''DELETE'', url = endpoint, body = JUndefined, timeout = 10000\<rparr>"

section \<open>The Tauri bridge (apiInterceptor.ts)\<close>

definition invoke :: "world \<Rightarrow> string \<Rightarrow> json \<Rightarrow> json io" where
  "invoke w command args st =
     ((case tauri w (clock st) command args of Inl e \<Rightarrow> Inl (Thrown e) | Inr v \<Rightarrow> Inr v),
      emit (Local command args) (tick st))"

text \<open>
  \<open>error.message?.includes(pattern)\<close> on a caught value: a TypeError when the value is
  \<open>undefined\<close> or \<open>null\<close>, or when its message has no \<open>includes\<close> method.
\<close>

definition message_includes :: "json \<Rightarrow> string \<Rightarrow> js_error + bool" where
  "message_includes e pattern =
     (case member e ''message'' of
        Inl err \<Rightarrow> Inl err
      | Inr m \<Rightarrow>
          (case m of
             JUndefined \<Rightarrow> Inr False
           | JNull \<Rightarrow> Inr False
           | JStr s \<Rightarrow> Inr (str_includes s pattern)
           | JArr xs \<Rightarrow> Inr (JStr pattern \<in> set xs)
           | _ \<Rightarrow> Inl (TypeError ''error.message?.includes is not a function'')))"

fun any_includes :: "json \<Rightarrow> string list \<Rightarrow> js_error + bool" where
  "any_includes e [] = Inr False"
| "any_includes e (p # ps) =
     (case message_includes e p of
        Inl err \<Rightarrow> Inl err
      | Inr True \<Rightarrow> Inr True
      | Inr False \<Rightarrow> any_includes e ps)"

definition thrown_value :: "js_error \<Rightarrow> json" where
  "thrown_value e =
     (case e of
        Thrown v \<Rightarrow> v
      | NetworkError m \<Rightarrow> JObj [(''name'', JStr ''NetworkError''), (''message'', JStr m)]
      | ApiError s m \<Rightarrow>
          JObj [(''name'', JStr ''ApiError''), (''message'', JStr m), (''status'', JNum (int s))]
      | TypeError m \<Rightarrow> JObj [(''name'', JStr ''TypeError''), (''message'', JStr m)]
      | Error m \<Rightarrow> JObj [(''name'', JStr ''Error''), (''message'', JStr m)])"

definition secureInvoke :: "world \<Rightarrow> string \<Rightarrow> json \<Rightarrow> json io" where
  "secureInvoke w command args st =
     (case authToken w (clock st) of
        None \<Rightarrow> (Inl (Error ''No authentication token available''), st)
      | Some tok \<Rightarrow>
          if tok = [] then (Inl (Error ''No authentication token available''), st)
          else
            tryCatch
              (invoke w command (JObj (obj_set (spread args) ''token'' (JStr tok))))
              (\<lambda>error st1.
                 case any_includes (thrown_value error)
                        [''Invalid token'', ''Token expired'', ''Authentication failed'',
                         ''Unauthorized'', ''Permission denied''] of
                   Inl err \<Rightarrow> (Inl err, st1)
                 | Inr True \<Rightarrow>
                     (Inl (Error ''Authentication failed''),
                      emit (Redirect ''/login'')
                        (emit Logout
                          (emit (ToastError ''Your session has expired. Please log in again.'') st1)))
                 | Inr False \<Rightarrow> (Inl error, st1))
              st)"

section \<open>OnlineFirstService (onlineFirstService.ts)\<close>

definition router_isOnline :: "world \<Rightarrow> bool io" where
  "router_isOnline w st =
     (if navigator_onLine w (clock st)
      then (case checkConnectivity w st of (b, st1) \<Rightarrow> (Inr b, st1))
      else (Inr False, st))"

text \<open>The body of \<open>updateLocalData\<close> only writes to the console.\<close>

definition updateLocalData :: "string \<Rightarrow> json \<Rightarrow> unit io" where
  "updateLocalData command d = resolve ()"

definition toast_success :: "string \<Rightarrow> unit io" where
  "toast_success msg st = (Inr (), emit (Toast msg) st)"

definition entityMap :: "(string \<times> string) list" where
  "entityMap =
     [(''product'', ''product''), (''user'', ''user''), (''order'', ''order''),
      (''supplier'', ''supplier''), (''movement'', ''movement'')]"

definition typeMap :: "(string \<times> string) list" where
  "typeMap = [(''create'', ''CREATE''), (''update'', ''UPDATE''), (''delete'', ''DELETE'')]"

text \<open>
  \<open>split_on\<close> never returns the empty list, so element 0 always exists; element 1 is
  \<open>undefined\<close> when \<open>operationType\<close> has no underscore, and \<open>type.toUpperCase()\<close> then
  throws. Properties that the two lookup tables inherit from \<open>Object.prototype\<close> are not
  modelled.
\<close>

definition addToSyncQueue :: "world \<Rightarrow> string \<Rightarrow> string \<Rightarrow> string \<Rightarrow> json \<Rightarrow> unit io" where
  "addToSyncQueue w operationType endpoint meth payload st =
     (let parts = split_on CHR ''_'' operationType;
          ent = (case parts of [] \<Rightarrow> [] | e # rest \<Rightarrow> e)
      in case at_index parts 1 of
           None \<Rightarrow>
             (Inl (TypeError ''Cannot read properties of undefined (reading toUpperCase)''), st)
         | Some ty \<Rightarrow>
             (Inr (),
              addToQueue w
                \<lparr>req_entity = (case map_of entityMap ent of Some e \<Rightarrow> e | None \<Rightarrow> ent),
                 req_type = (case map_of typeMap ty of Some t \<Rightarrow> t | None \<Rightarrow> toUpperCase ty),
                 req_data = JObj [(''endpoint'', JStr endpoint), (''method'', JStr meth),
                                  (''payload'', payload)],
                 req_maxRetries = 5\<rparr>
                st))"

definition createOfflineAndQueue ::
    "world \<Rightarrow> json \<Rightarrow> string \<Rightarrow> string \<Rightarrow> string \<Rightarrow> json io" where
  "createOfflineAndQueue w d endpoint fallbackCommand operationType =
     andThen (invoke w fallbackCommand d) (\<lambda>result.
     andThen (addToSyncQueue w operationType endpoint ''POST'' d) (\<lambda>u.
     andThen (toast_success ''Created offline. Will sync when online.'') (\<lambda>u.
     resolve result)))"

definition updateOfflineAndQueue ::
    "world \<Rightarrow> json \<Rightarrow> string \<Rightarrow> string \<Rightarrow> json \<Rightarrow> string \<Rightarrow> json io" where
  "updateOfflineAndQueue w d endpoint fallbackCommand fallbackArgs operationType =
     andThen (invoke w fallbackCommand fallbackArgs) (\<lambda>result.
     andThen (addToSyncQueue w operationType endpoint ''PUT'' d) (\<lambda>u.
     andThen (toast_success ''Updated offline. Will sync when online.'') (\<lambda>u.
     resolve result)))"

definition deleteOfflineAndQueue ::
    "world \<Rightarrow> string \<Rightarrow> string \<Rightarrow> json \<Rightarrow> string \<Rightarrow> json io" where
  "deleteOfflineAndQueue w endpoint fallbackCommand fallbackArgs operationType =
     andThen (invoke w fallbackCommand fallbackArgs) (\<lambda>result.
     andThen (addToSyncQueue w operationType endpoint ''DELETE'' (JObj [])) (\<lambda>u.
     andThen (toast_success ''Deleted offline. Will sync when online.'') (\<lambda>u.
     resolve result)))"

definition router_get :: "world \<Rightarrow> string \<Rightarrow> string \<Rightarrow> json \<Rightarrow> json io" where
  "router_get w endpoint fallbackCommand fallbackArgs =
     andThen (router_isOnline w) (\<lambda>online.
       if online then
         tryCatch
           (andThen (api_get w endpoint) (\<lambda>result.
            andThen (updateLocalData fallbackCommand result) (\<lambda>u.
            resolve result)))
           (\<lambda>error.
              if isNetworkError error then invoke w fallbackCommand fallbackArgs
              else reject error)
       else invoke w fallbackCommand fallbackArgs)"

definition router_create :: "world \<Rightarrow> string \<Rightarrow> json \<Rightarrow> string \<Rightarrow> string \<Rightarrow> json io" where
  "router_create w endpoint d fallbackCommand operationType =
     andThen (router_isOnline w) (\<lambda>online.
       if online then
         tryCatch
           (andThen (api_post w endpoint d) (\<lambda>result.
            andThen (updateLocalData fallbackCommand result) (\<lambda>u.
            resolve result)))
           (\<lambda>error.
              if isNetworkError error
              then createOfflineAndQueue w d endpoint fallbackCommand operationType
              else reject error)
       else createOfflineAndQueue w d endpoint fallbackCommand operationType)"

definition router_update ::
    "world \<Rightarrow> string \<Rightarrow> json \<Rightarrow> string \<Rightarrow> json \<Rightarrow> string \<Rightarrow> json io" where
  "router_update w endpoint d fallbackCommand fallbackArgs operationType =
     andThen (router_isOnline w) (\<lambda>online.
       if online then
         tryCatch
           (andThen (api_put w endpoint d) (\<lambda>result.
            andThen (updateLocalData fallbackCommand result) (\<lambda>u.
            resolve result)))
           (\<lambda>error.
              if isNetworkError error
              then updateOfflineAndQueue w d endpoint fallbackCommand fallbackArgs operationType
              else reject error)
       else updateOfflineAndQueue w d endpoint fallbackCommand fallbackArgs operationType)"

definition router_delete :: "world \<Rightarrow> string \<Rightarrow> string \<Rightarrow> json \<Rightarrow> string \<Rightarrow> json io" where
  "router_delete w endpoint fallbackCommand fallbackArgs operationType =
     andThen (router_isOnline w) (\<lambda>online.
       if online then
         tryCatch
           (andThen (api_delete w endpoint) (\<lambda>result.
            andThen (invoke w fallbackCommand fallbackArgs) (\<lambda>u.
            resolve result)))
           (\<lambda>error.
              if isNetworkError error
              then deleteOfflineAndQueue w endpoint fallbackCommand fallbackArgs operationType
              else reject error)
       else deleteOfflineAndQueue w endpoint fallbackCommand fallbackArgs operationType)"

subsection \<open>The entity operations the replay and the services use\<close>

definition products_create :: "world \<Rightarrow> json \<Rightarrow> json io" where
  "products_create w productData =
     router_create w ''/inventory/products'' productData ''create_product'' ''product_create''"

definition products_update :: "world \<Rightarrow> json \<Rightarrow> json \<Rightarrow> json io" where
  "products_update w i productData =
     router_update w (''/inventory/products/'' @ to_string i) productData ''update_product''
       (JObj (obj_merge [(''id'', i)] (spread productData))) ''product_update''"

definition products_delete :: "world \<Rightarrow> json \<Rightarrow> json io" where
  "products_delete w i =
     router_delete w (''/inventory/products/'' @ to_string i) ''delete_product''
       (JObj [(''id'', i)]) ''product_delete''"

definition products_updateStock :: "world \<Rightarrow> json \<Rightarrow> json \<Rightarrow> json io" where
  "products_updateStock w i stockData =
     router_update w (''/inventory/products/'' @ to_string i @ ''/stock'') stockData ''update_stock''
       (JObj [(''productId'', i), (''stockData'', stockData)]) ''product_stock_update''"

definition users_create :: "world \<Rightarrow> json \<Rightarrow> json io" where
  "users_create w userData = router_create w ''/users'' userData ''create_user'' ''user_create''"

definition orders_getById :: "world \<Rightarrow> json \<Rightarrow> json io" where
  "orders_getById w i =
     router_get w (''/sales/orders/'' @ to_string i) ''get_order'' (JObj [(''id'', i)])"

definition orders_create :: "world \<Rightarrow> json \<Rightarrow> json io" where
  "orders_create w orderData =
     router_create w ''/sales/orders'' orderData ''create_order'' ''order_create''"

definition orders_complete :: "world \<Rightarrow> json \<Rightarrow> json io" where
  "orders_complete w i =
     router_create w (''/sales/orders/'' @ to_string i @ ''/complete'') (JObj [])
       ''complete_order'' ''order_complete''"

definition orders_cancel :: "world \<Rightarrow> json \<Rightarrow> json io" where
  "orders_cancel w i =
     router_create w (''/sales/orders/'' @ to_string i @ ''/cancel'') (JObj [])
       ''cancel_order'' ''order_cancel''"

definition orders_refund :: "world \<Rightarrow> json \<Rightarrow> json io" where
  "orders_refund w i =
     router_create w (''/sales/orders/'' @ to_string i @ ''/refund'') (JObj [])
       ''refund_order'' ''order_refund''"

definition salesReports_generateSalesReport :: "world \<Rightarrow> json \<Rightarrow> json io" where
  "salesReports_generateSalesReport w d =
     router_create w ''/sales/reports/sales'' d ''get_sales_report'' ''sales_report''"

definition suppliers_create :: "world \<Rightarrow> json \<Rightarrow> json io" where
  "suppliers_create w supplierData =
     router_create w ''/inventory/suppliers'' supplierData ''create_supplier'' ''supplier_create''"

definition suppliers_update :: "world \<Rightarrow> json \<Rightarrow> json \<Rightarrow> json io" where
  "suppliers_update w i supplierData =
     router_update w (''/inventory/suppliers/'' @ to_string i) supplierData ''update_supplier''
       (JObj (obj_merge [(''id'', i)] (spread supplierData))) ''supplier_update''"

definition suppliers_delete :: "world \<Rightarrow> json \<Rightarrow> json io" where
  "suppliers_delete w i =
     router_delete w (''/inventory/suppliers/'' @ to_string i) ''delete_supplier''
       (JObj [(''id'', i)]) ''supplier_delete''"

section \<open>The services the replay calls\<close>

subsection \<open>inventoryService.ts\<close>

definition inventoryService_createProduct :: "world \<Rightarrow> json \<Rightarrow> json io" where
  "inventoryService_createProduct w productData = products_create w productData"

definition inventoryService_updateProduct :: "world \<Rightarrow> json \<Rightarrow> json \<Rightarrow> json io" where
  "inventoryService_updateProduct w productId productData =
     products_update w productId productData"

definition inventoryService_deleteProduct :: "world \<Rightarrow> json \<Rightarrow> json io" where
  "inventoryService_deleteProduct w productId = products_delete w productId"

definition inventoryService_createSupplier :: "world \<Rightarrow> json \<Rightarrow> json io" where
  "inventoryService_createSupplier w supplierData = suppliers_create w supplierData"

definition inventoryService_updateSupplier :: "world \<Rightarrow> json \<Rightarrow> json \<Rightarrow> json io" where
  "inventoryService_updateSupplier w supplierId supplierData =
     suppliers_update w supplierId supplierData"

definition inventoryService_deleteSupplier :: "world \<Rightarrow> json \<Rightarrow> json io" where
  "inventoryService_deleteSupplier w supplierId = suppliers_delete w supplierId"

subsection \<open>userService.ts\<close>

text \<open>\<open>new Date()\<close>, as its epoch milliseconds.\<close>

definition new_Date :: "world \<Rightarrow> json io" where
  "new_Date w st = (Inr (JNum (int (date_now w (clock st)))), tick st)"

text \<open>\<open>a ?? b\<close>.\<close>

definition coalesce :: "json \<Rightarrow> json \<Rightarrow> json" where
  "coalesce a b = (if nullish a then b else a)"

definition userService_createUser :: "world \<Rightarrow> json \<Rightarrow> json io" where
  "userService_createUser w userData =
     tryCatch
       (andThen (settle (member userData ''email'')) (\<lambda>email.
        andThen (settle (member userData ''full_name'')) (\<lambda>full_name.
        andThen (settle (member userData ''role'')) (\<lambda>role.
        andThen (settle (member userData ''password'')) (\<lambda>password.
        andThen (settle (member userData ''is_active'')) (\<lambda>is_active.
        users_create w
          (JObj [(''email'', email), (''full_name'', full_name), (''role'', role),
                 (''password'', password), (''is_active'', coalesce is_active (JBool True))])))))))
       (\<lambda>error.
        andThen (settle (member userData ''email'')) (\<lambda>email.
        andThen (settle (member userData ''full_name'')) (\<lambda>full_name.
        andThen (settle (member userData ''role'')) (\<lambda>role.
        andThen (settle (member userData ''password'')) (\<lambda>password.
        andThen (secureInvoke w ''create_user''
                   (JObj [(''email'', email), (''fullName'', full_name), (''role'', role),
                          (''password'', password)])) (\<lambda>userId.
        andThen (settle (member userData ''is_active'')) (\<lambda>is_active.
        andThen (new_Date w) (\<lambda>created_at.
        andThen (new_Date w) (\<lambda>updated_at.
        resolve
          (JObj [(''id'', userId), (''email'', email), (''full_name'', full_name),
                 (''role'', role), (''is_active'', coalesce is_active (JBool True)),
                 (''is_superuser'', JBool False), (''password_hash'', JStr []),
                 (''created_at'', created_at), (''updated_at'', updated_at)]))))))))))"

definition userService_updateUser :: "world \<Rightarrow> json \<Rightarrow> json \<Rightarrow> json io" where
  "userService_updateUser w userId userData =
     andThen (settle (member userData ''email'')) (\<lambda>email.
     andThen (settle (member userData ''fullName'')) (\<lambda>fullName.
     andThen (settle (member userData ''role'')) (\<lambda>role.
     secureInvoke w ''update_user''
       (JObj [(''userId'', userId), (''email'', email), (''fullName'', fullName),
              (''role'', role)]))))"

definition userService_deleteUser :: "world \<Rightarrow> json \<Rightarrow> json io" where
  "userService_deleteUser w userId = secureInvoke w ''delete_user'' (JObj [(''userId'', userId)])"

subsection \<open>posService.ts\<close>

definition posService_createOrder :: "world \<Rightarrow> json \<Rightarrow> json io" where
  "posService_createOrder w orderData =
     andThen (orders_create w orderData) (\<lambda>resp.
       case resp of JNum n \<Rightarrow> orders_getById w resp | _ \<Rightarrow> resolve resp)"

definition posService_completeOrder :: "world \<Rightarrow> json \<Rightarrow> json io" where
  "posService_completeOrder w orderId = orders_complete w orderId"

definition posService_cancelOrder :: "world \<Rightarrow> json \<Rightarrow> unit io" where
  "posService_cancelOrder w orderId = andThen (orders_cancel w orderId) (\<lambda>r. resolve ())"

section \<open>SyncService (syncService.ts)\<close>

definition void :: "json io \<Rightarrow> unit io" where
  "void m = andThen m (\<lambda>r. resolve ())"

definition syncProduct :: "world \<Rightarrow> string \<Rightarrow> json \<Rightarrow> unit io" where
  "syncProduct w ty d =
     (if ty = ''CREATE'' then void (inventoryService_createProduct w d)
      else if ty = ''UPDATE'' then
        andThen (settle (member d ''id'')) (\<lambda>i. void (inventoryService_updateProduct w i d))
      else if ty = ''DELETE'' then
        andThen (settle (member d ''id'')) (\<lambda>i. void (inventoryService_deleteProduct w i))
      else resolve ())"

definition syncUser :: "world \<Rightarrow> string \<Rightarrow> json \<Rightarrow> unit io" where
  "syncUser w ty d =
     (if ty = ''CREATE'' then void (userService_createUser w d)
      else if ty = ''UPDATE'' then
        andThen (settle (member d ''id'')) (\<lambda>i. void (userService_updateUser w i d))
      else if ty = ''DELETE'' then
        andThen (settle (member d ''id'')) (\<lambda>i. void (userService_deleteUser w i))
      else resolve ())"

definition syncOrder :: "world \<Rightarrow> string \<Rightarrow> json \<Rightarrow> unit io" where
  "syncOrder w ty d =
     (if ty = ''CREATE'' then
        andThen (posService_createOrder w d) (\<lambda>order.
        andThen (settle (member order ''id'')) (\<lambda>i.
        void (posService_completeOrder w i)))
      else if ty = ''UPDATE'' then resolve ()
      else if ty = ''DELETE'' then
        andThen (settle (member d ''id'')) (\<lambda>i. posService_cancelOrder w i)
      else resolve ())"

definition syncSupplier :: "world \<Rightarrow> string \<Rightarrow> json \<Rightarrow> unit io" where
  "syncSupplier w ty d =
     (if ty = ''CREATE'' then void (inventoryService_createSupplier w d)
      else if ty = ''UPDATE'' then
        andThen (settle (member d ''id'')) (\<lambda>i. void (inventoryService_updateSupplier w i d))
      else if ty = ''DELETE'' then
        andThen (settle (member d ''id'')) (\<lambda>i. void (inventoryService_deleteSupplier w i))
      else resolve ())"

definition processOperation :: "world \<Rightarrow> QueuedOperation \<Rightarrow> unit io" where
  "processOperation w operation =
     (if entity operation = ''product'' then syncProduct w (type operation) (data operation)
      else if entity operation = ''user'' then syncUser w (type operation) (data operation)
      else if entity operation = ''order'' then syncOrder w (type operation) (data operation)
      else if entity operation = ''supplier'' then syncSupplier w (type operation) (data operation)
      else reject (Error (''Unknown entity type: '' @ entity operation)))"

text \<open>
  While the pass awaits a replay, other tasks run; the enqueue requests they issue reach the
  store through \<open>addToQueue\<close>. A pass is otherwise modelled as running from its guard to
  its end; a state with \<open>isSyncing\<close> true stands for a pass suspended at an await.
\<close>

definition interleave :: "world \<Rightarrow> engine \<Rightarrow> engine" where
  "interleave w st = foldl (\<lambda>s r. addToQueue w r s) (tick st) (arrivals w (clock st))"

text \<open>
  One iteration of the \<open>for\<close> loop of \<open>performSync\<close>: the awaited replay, then the rest
  of the \<open>try\<close> block or the \<open>catch\<close> block. The test reads \<open>retryCount\<close> from the
  snapshot element \<open>operation\<close>, which \<open>incrementRetryCount\<close> does not change (it stores
  a copy).
\<close>

definition eviction_message :: "QueuedOperation \<Rightarrow> string" where
  "eviction_message operation =
     ''Failed to sync '' @ entity operation @ '' '' @ type operation @ '' after '' @
     show_nat (maxRetries operation) @ '' attempts''"

definition record_outcome :: "QueuedOperation \<Rightarrow> (js_error + unit) \<times> engine \<Rightarrow> engine" where
  "record_outcome operation res =
     (case res of
        (Inr u, st1) \<Rightarrow> emit (Synced (op_id operation)) (removeFromQueue (op_id operation) st1)
      | (Inl error, st1) \<Rightarrow>
          (let st2 = incrementRetryCount (op_id operation) (emit (SyncFailed (op_id operation)) st1)
           in if retryCount operation \<ge> maxRetries operation
              then addSyncError (eviction_message operation)
                     (removeFromQueue (op_id operation) (emit (Evicted (op_id operation)) st2))
              else st2))"

definition sync_step :: "world \<Rightarrow> QueuedOperation \<Rightarrow> engine \<Rightarrow> engine" where
  "sync_step w operation st =
     record_outcome operation
       (processOperation w operation (interleave w (emit (Attempt operation) st)))"

fun sync_loop :: "world \<Rightarrow> QueuedOperation list \<Rightarrow> engine \<Rightarrow> engine" where
  "sync_loop w [] st = st"
| "sync_loop w (operation # rest) st = sync_loop w rest (sync_step w operation st)"

definition performSync :: "world \<Rightarrow> engine \<Rightarrow> engine" where
  "performSync w st =
     (if \<not> isOnline st \<or> isSyncing st \<or> length (syncQueue st) = 0 then st
      else
        (let operationsToProcess = syncQueue st
         in setSyncing w False
              (sync_loop w operationsToProcess (clearSyncErrors (setSyncing w True st)))))"

definition startPeriodicSync :: "engine \<Rightarrow> engine" where
  "startPeriodicSync st =
     (case syncInterval st of Some t \<Rightarrow> st | None \<Rightarrow> st\<lparr>syncInterval := Some 30000\<rparr>)"

definition stopPeriodicSync :: "engine \<Rightarrow> engine" where
  "stopPeriodicSync st =
     (case syncInterval st of Some t \<Rightarrow> st\<lparr>syncInterval := None\<rparr> | None \<Rightarrow> st)"

definition handleOnline :: "world \<Rightarrow> engine \<Rightarrow> engine" where
  "handleOnline w st = performSync w (startPeriodicSync (setOnlineStatus True st))"

definition handleOffline :: "engine \<Rightarrow> engine" where
  "handleOffline st = stopPeriodicSync (setOnlineStatus False st)"



text \<open>A pending timeout fires: its callback runs and it leaves the pending list.\<close>

definition run_callback :: "world \<Rightarrow> callback \<Rightarrow> engine \<Rightarrow> engine" where
  "run_callback w cb st =
     (case cb of
        DispatchTriggerSync \<Rightarrow> if isInitialized st then performSync w st else st
      | CallPerformSync \<Rightarrow> performSync w st)"

definition fire_timeout :: "world \<Rightarrow> nat \<Rightarrow> engine \<Rightarrow> engine" where
  "fire_timeout w i st =
     (if i < length (timeouts st)
      then run_callback w (snd (timeouts st ! i))
             (st\<lparr>timeouts := take i (timeouts st) @ drop (Suc i) (timeouts st)\<rparr>)
      else st)"

definition queueOperation :: "world \<Rightarrow> queue_request \<Rightarrow> engine \<Rightarrow> engine" where
  "queueOperation w operation st =
     (let st1 = addToQueue w operation st
      in if isOnline st1 then st1\<lparr>timeouts := timeouts st1 @ [(100, CallPerformSync)]\<rparr> else st1)"

definition initialize :: "world \<Rightarrow> engine \<Rightarrow> engine" where
  "initialize w st =
     (if isInitialized st then st
      else
        (let st1 = setOnlineStatus (navigator_onLine w (clock st)) st;
             st2 = (if navigator_onLine w (clock st) then startPeriodicSync st1 else st1)
         in st2\<lparr>isInitialized := True\<rparr>))"

record sync_status =
  status_isOnline :: bool
  status_isSyncing :: bool
  queueLength :: nat
  hasErrors :: bool
  errors :: "string list"
  status_lastSyncAttempt :: "nat option"

definition getSyncStatus :: "engine \<Rightarrow> sync_status" where
  "getSyncStatus st =
     \<lparr>status_isOnline = isOnline st, status_isSyncing = isSyncing st,
      queueLength = length (syncQueue st), hasErrors = (length (syncErrors st) > 0),
      errors = syncErrors st, status_lastSyncAttempt = lastSyncAttempt st\<rparr>"

section \<open>Notions used in the statements\<close>

text \<open>
  The pass events of the trace (a replay attempt and its verdict) against the events that
  a router or service call can emit.
\<close>

fun quiet :: "event \<Rightarrow> bool" where
  "quiet (Attempt q) = False"
| "quiet (Synced i) = False"
| "quiet (SyncFailed i) = False"
| "quiet (Evicted i) = False"
| "quiet ev = True"

text \<open>The operations that the trace shows entering the queue, and those it shows replayed.\<close>

fun enqueued :: "event list \<Rightarrow> QueuedOperation list" where
  "enqueued [] = []"
| "enqueued (Enqueue q # tr) = q # enqueued tr"
| "enqueued (ev # tr) = enqueued tr"

fun attempts :: "event list \<Rightarrow> QueuedOperation list" where
  "attempts [] = []"
| "attempts (Attempt q # tr) = q # attempts tr"
| "attempts (ev # tr) = attempts tr"

text \<open>
  \<open>extends w st st'\<close>: from \<open>st\<close> to \<open>st'\<close> nothing happened but environment interactions,
  quiet events and enqueues of new operations (retry count 0, an id the environment issued
  in between). Every router and service call is of this kind.
\<close>

definition extends :: "world \<Rightarrow> engine \<Rightarrow> engine \<Rightarrow> bool" where
  "extends w st st' \<longleftrightarrow>
     (\<exists>tr c. st' = st\<lparr>syncQueue := syncQueue st @ enqueued tr, trace := trace st @ tr, clock := c\<rparr>
        \<and> clock st \<le> c
        \<and> (\<forall>ev \<in> set tr. quiet ev)
        \<and> (\<forall>q \<in> set (enqueued tr). retryCount q = 0
              \<and> (\<exists>t. clock st \<le> t \<and> t < c \<and> op_id q = new_id w t)))"

definition io_extends :: "world \<Rightarrow> 'a io \<Rightarrow> bool" where
  "io_extends w m \<longleftrightarrow> (\<forall>st r st'. m st = (r, st') \<longrightarrow> extends w st st')"

text \<open>The environment never issues the id \<open>i\<close> from now on.\<close>

definition fresh :: "world \<Rightarrow> string \<Rightarrow> engine \<Rightarrow> bool" where
  "fresh w i st \<longleftrightarrow> (\<forall>t\<ge>clock st. new_id w t \<noteq> i)"

text \<open>The queue entries with id \<open>i\<close>.\<close>

definition entries :: "string \<Rightarrow> engine \<Rightarrow> QueuedOperation list" where
  "entries i st = filter (\<lambda>q. op_id q = i) (syncQueue st)"

definition bump :: "QueuedOperation \<Rightarrow> QueuedOperation" where
  "bump q = q\<lparr>retryCount := retryCount q + 1\<rparr>"

text \<open>The verdicts the passes logged about the operation with id \<open>i\<close>.\<close>

definition verdicts :: "string \<Rightarrow> event list \<Rightarrow> event list" where
  "verdicts i tr = filter (\<lambda>ev. ev = Synced i \<or> ev = SyncFailed i \<or> ev = Evicted i) tr"

text \<open>The guard of \<open>performSync\<close> and the state in which its loop starts.\<close>

definition may_start :: "engine \<Rightarrow> bool" where
  "may_start st \<longleftrightarrow> isOnline st \<and> \<not> isSyncing st \<and> syncQueue st \<noteq> []"

definition pass_start :: "world \<Rightarrow> engine \<Rightarrow> engine" where
  "pass_start w st = clearSyncErrors (setSyncing w True st)"

definition remote_calls :: "event list \<Rightarrow> request list" where
  "remote_calls tr = concat (map (\<lambda>ev. case ev of Remote req \<Rightarrow> [req] | _ \<Rightarrow> []) tr)"

definition local_calls :: "event list \<Rightarrow> (string \<times> json) list" where
  "local_calls tr = concat (map (\<lambda>ev. case ev of Local c a \<Rightarrow> [(c, a)] | _ \<Rightarrow> []) tr)"


text \<open>The operation that \<open>addToSyncQueue\<close> hands to the store at interaction \<open>t\<close>.\<close>

definition queued :: "world \<Rightarrow> nat \<Rightarrow> string \<Rightarrow> string \<Rightarrow> string \<Rightarrow> string \<Rightarrow> json
    \<Rightarrow> QueuedOperation" where
  "queued w t ent ty endpoint meth payload =
     \<lparr>op_id = new_id w t,
      type = (case map_of typeMap ty of Some u \<Rightarrow> u | None \<Rightarrow> toUpperCase ty),
      entity = (case map_of entityMap ent of Some e \<Rightarrow> e | None \<Rightarrow> ent),
      data = JObj [(''endpoint'', JStr endpoint), (''method'', JStr meth), (''payload'', payload)],
      timestamp = date_now w t,
      retryCount = 0,
      maxRetries = 5\<rparr>"

text \<open>The queue entries whose id is not in \<open>S\<close>.\<close>

definition newcomers :: "string set \<Rightarrow> engine \<Rightarrow> QueuedOperation list" where
  "newcomers S st = filter (\<lambda>q. op_id q \<notin> S) (syncQueue st)"

text \<open>
  What the engine does between two observations, \<open>clearQueue\<close> apart: passes (whatever
  triggers them), router calls, direct enqueues, connectivity events, timeouts that fire and
  the clearing of the error list.
\<close>

inductive evolves :: "world \<Rightarrow> engine \<Rightarrow> engine \<Rightarrow> bool" for w :: world and st :: engine where
  start: "evolves w st st"
| pass: "evolves w st s \<Longrightarrow> evolves w st (performSync w s)"
| read: "evolves w st s \<Longrightarrow> evolves w st (snd (router_get w ep cmd args s))"
| create: "evolves w st s \<Longrightarrow> evolves w st (snd (router_create w ep d cmd ot s))"
| update: "evolves w st s \<Longrightarrow> evolves w st (snd (router_update w ep d cmd args ot s))"
| delete: "evolves w st s \<Longrightarrow> evolves w st (snd (router_delete w ep cmd args ot s))"
| enqueue: "evolves w st s \<Longrightarrow> evolves w st (queueOperation w r s)"
| online: "evolves w st s \<Longrightarrow> evolves w st (handleOnline w s)"
| offline: "evolves w st s \<Longrightarrow> evolves w st (handleOffline s)"
| timeout: "evolves w st s \<Longrightarrow> evolves w st (fire_timeout w i s)"
| clear_errors: "evolves w st s \<Longrightarrow> evolves w st (clearSyncErrors s)"

section \<open>Concrete environments, states and operations\<close>

text \<open>
  An environment for the examples: the platform signal is \<open>online\<close>, the probe is answered
  with status 200, every other request as \<open>net\<close> says, every Tauri command succeeds, and
  no other task enqueues anything.
\<close>

definition test_world :: "bool \<Rightarrow> (request \<Rightarrow> axios_error + axios_response) \<Rightarrow> world" where
  "test_world online net =
     \<lparr>navigator_onLine = (\<lambda>t. online),
      transport = (\<lambda>t req. if url req = ''/auth/me'' then Inr \<lparr>status = 200, rdata = JNull\<rparr>
                             else net req),
      tauri = (\<lambda>t command args. Inr (JNum 7)),
      authToken = (\<lambda>t. Some ''token''),
      date_now = (\<lambda>t. 1000 + t),
      new_id = (\<lambda>t. CHR ''n'' # show_nat t),
      arrivals = (\<lambda>t. [])\<rparr>"


definition server_error :: "request \<Rightarrow> axios_error + axios_response" where
  "server_error req = Inr \<lparr>status = 500, rdata = JNull\<rparr>"

definition created :: "request \<Rightarrow> axios_error + axios_response" where
  "created req =
     Inr \<lparr>status = 201,
          rdata = JObj [(''id'', JNum 1), (''name'', JStr ''Milk''), (''sku'', JStr ''MLK001'')]\<rparr>"

text \<open>
  An environment in which another task enqueues a product update while the pass awaits its
  first replay.
\<close>

definition busy_world :: world where
  "busy_world =
     (test_world True created)\<lparr>arrivals :=
        (\<lambda>t. if t = 1
              then [\<lparr>req_entity = ''product'', req_type = ''UPDATE'',
                     req_data = JObj [(''id'', JNum 4), (''price'', JNum 3)],
                     req_maxRetries = 5\<rparr>]
              else [])\<rparr>"

text \<open>An engine at rest with the queue \<open>q\<close>, and the state after the connectivity probe.\<close>

definition idle :: "QueuedOperation list \<Rightarrow> engine" where
  "idle q = \<lparr>isOnline = True, syncQueue = q, isSyncing = False, lastSyncAttempt = None,
     syncErrors = [], syncInterval = Some 30000, isInitialized = True, timeouts = [],
     trace = [], clock = 0\<rparr>"

definition probed :: "engine \<Rightarrow> engine" where
  "probed st =
     emit (Remote \<lparr>http_method = ''GET'', url = ''/auth/me'', body = JUndefined, timeout = 5000\<rparr>)
       (tick st)"

text \<open>A payload and queued operations, as a persisted queue may hold them.\<close>

definition milk :: json where
  "milk = JObj [(''name'', JStr ''Milk''), (''sku'', JStr ''MLK001'')]"

definition milk_op :: QueuedOperation where
  "milk_op =
     \<lparr>op_id = ''q4'', type = ''CREATE'', entity = ''product'', data = milk,
      timestamp = 900, retryCount = 0, maxRetries = 3\<rparr>"

definition movement_op :: QueuedOperation where
  "movement_op =
     \<lparr>op_id = ''m1'', type = ''CREATE'', entity = ''movement'',
      data = JObj [(''productId'', JNum 4), (''quantity'', JNum 12)],
      timestamp = 900, retryCount = 0, maxRetries = 2\<rparr>"

definition stock_op :: QueuedOperation where
  "stock_op =
     \<lparr>op_id = ''q1'', type = ''STOCK'', entity = ''product'',
      data = JObj [(''endpoint'', JStr ''/inventory/products/4/stock''), (''method'', JStr ''PUT''),
                   (''payload'', JObj [(''quantity'', JNum 12)])],
      timestamp = 900, retryCount = 0, maxRetries = 5\<rparr>"

definition sales_op :: QueuedOperation where
  "sales_op =
     \<lparr>op_id = ''q2'', type = ''REPORT'', entity = ''sales'',
      data = JObj [(''endpoint'', JStr ''/sales/reports/sales''), (''method'', JStr ''POST''),
                   (''payload'', JObj [(''start_date'', JStr ''2024-01-01''),
                                       (''end_date'', JStr ''2024-01-31'')])],
      timestamp = 900, retryCount = 0, maxRetries = 5\<rparr>"



section \<open>What a router or service call can change\<close>

lemma enqueued_append: "enqueued (xs @ ys) = enqueued xs @ enqueued ys"
  by (induction xs rule: enqueued.induct) auto

lemma attempts_append: "attempts (xs @ ys) = attempts xs @ attempts ys"
  by (induction xs rule: attempts.induct) auto

lemma attempts_quiet: "\<forall>ev \<in> set tr. quiet ev \<Longrightarrow> attempts tr = []"
  by (induction tr rule: attempts.induct) auto

lemma extends_refl: "extends w st st"
  unfolding extends_def by (rule exI [of _ "[]"], rule exI [of _ "clock st"]) simp

lemma extends_trans:
  assumes "extends w a b" and "extends w b c"
  shows "extends w a c"
proof -
  from assms(1) obtain tr1 c1 where
    b: "b = a\<lparr>syncQueue := syncQueue a @ enqueued tr1, trace := trace a @ tr1, clock := c1\<rparr>"
    and c1: "clock a \<le> c1" and q1: "\<forall>ev \<in> set tr1. quiet ev"
    and f1: "\<forall>q \<in> set (enqueued tr1). retryCount q = 0
              \<and> (\<exists>t. clock a \<le> t \<and> t < c1 \<and> op_id q = new_id w t)"
    unfolding extends_def by blast
  from assms(2) obtain tr2 c2 where
    c: "c = b\<lparr>syncQueue := syncQueue b @ enqueued tr2, trace := trace b @ tr2, clock := c2\<rparr>"
    and c2: "clock b \<le> c2" and q2: "\<forall>ev \<in> set tr2. quiet ev"
    and f2: "\<forall>q \<in> set (enqueued tr2). retryCount q = 0
              \<and> (\<exists>t. clock b \<le> t \<and> t < c2 \<and> op_id q = new_id w t)"
    unfolding extends_def by blast
  have cb: "clock b = c1" using b by simp
  have eq: "c = a\<lparr>syncQueue := syncQueue a @ enqueued (tr1 @ tr2),
                   trace := trace a @ (tr1 @ tr2), clock := c2\<rparr>"
    using b c by (simp add: enqueued_append)
  have le: "clock a \<le> c2" using c1 c2 cb by simp
  have qq: "\<forall>ev \<in> set (tr1 @ tr2). quiet ev" using q1 q2 by auto
  have ff: "\<forall>q \<in> set (enqueued (tr1 @ tr2)). retryCount q = 0
              \<and> (\<exists>t. clock a \<le> t \<and> t < c2 \<and> op_id q = new_id w t)"
  proof
    fix q assume "q \<in> set (enqueued (tr1 @ tr2))"
    then consider "q \<in> set (enqueued tr1)" | "q \<in> set (enqueued tr2)"
      by (auto simp: enqueued_append)
    then show "retryCount q = 0 \<and> (\<exists>t. clock a \<le> t \<and> t < c2 \<and> op_id q = new_id w t)"
    proof cases
      case 1
      with f1 obtain t where "retryCount q = 0" "clock a \<le> t" "t < c1" "op_id q = new_id w t"
        by blast
      then show ?thesis using c2 cb by (intro conjI exI [of _ t]) auto
    next
      case 2
      with f2 obtain t where "retryCount q = 0" "clock b \<le> t" "t < c2" "op_id q = new_id w t"
        by blast
      then show ?thesis using c1 cb by (intro conjI exI [of _ t]) auto
    qed
  qed
  show ?thesis unfolding extends_def using eq le qq ff by blast
qed

lemma extends_tick: "extends w st (tick st)"
  unfolding extends_def tick_def
  by (rule exI [of _ "[]"], rule exI [of _ "clock st + 1"]) simp

lemma extends_emit: "quiet ev \<Longrightarrow> enqueued [ev] = [] \<Longrightarrow> extends w st (emit ev st)"
  unfolding extends_def emit_def
  by (rule exI [of _ "[ev]"], rule exI [of _ "clock st"]) simp

lemma extends_addToQueue: "extends w st (addToQueue w r st)"
  unfolding extends_def addToQueue_def emit_def tick_def Let_def
  apply (rule exI [of _ "[Enqueue \<lparr>op_id = new_id w (clock st), type = req_type r,
            entity = req_entity r, data = req_data r, timestamp = date_now w (clock st),
            retryCount = 0,
            maxRetries = (if req_maxRetries r = 0 then 3 else req_maxRetries r)\<rparr>]"])
  apply (rule exI [of _ "clock st + 1"])
  apply simp
  apply (rule exI [of _ "clock st"])
  apply simp
  done

lemma io_extendsI: "(\<And>st r st'. m st = (r, st') \<Longrightarrow> extends w st st') \<Longrightarrow> io_extends w m"
  unfolding io_extends_def by blast

lemma io_extendsD: "io_extends w m \<Longrightarrow> m st = (r, st') \<Longrightarrow> extends w st st'"
  unfolding io_extends_def by blast

lemma io_extends_resolve: "io_extends w (resolve v)"
  by (rule io_extendsI) (auto simp: resolve_def extends_refl)

lemma io_extends_reject: "io_extends w (reject e)"
  by (rule io_extendsI) (auto simp: reject_def extends_refl)

lemma io_extends_settle: "io_extends w (settle r)"
  by (rule io_extendsI) (auto simp: settle_def extends_refl)

lemma io_extends_andThen:
  assumes "io_extends w m" and "\<And>v. io_extends w (f v)"
  shows "io_extends w (andThen m f)"
proof (rule io_extendsI)
  fix st r st' assume a: "andThen m f st = (r, st')"
  obtain r1 st1 where m: "m st = (r1, st1)" by force
  have e1: "extends w st st1" using assms(1) m by (rule io_extendsD)
  show "extends w st st'"
  proof (cases r1)
    case (Inl e)
    with a m have "st' = st1" by (simp add: andThen_def)
    with e1 show ?thesis by simp
  next
    case (Inr v)
    with a m have "f v st1 = (r, st')" by (simp add: andThen_def)
    then have "extends w st1 st'" using assms(2) by (rule io_extendsD [rotated])
    with e1 show ?thesis by (rule extends_trans)
  qed
qed

lemma io_extends_tryCatch:
  assumes "io_extends w m" and "\<And>e. io_extends w (h e)"
  shows "io_extends w (tryCatch m h)"
proof (rule io_extendsI)
  fix st r st' assume a: "tryCatch m h st = (r, st')"
  obtain r1 st1 where m: "m st = (r1, st1)" by force
  have e1: "extends w st st1" using assms(1) m by (rule io_extendsD)
  show "extends w st st'"
  proof (cases r1)
    case (Inr v)
    with a m have "st' = st1" by (simp add: tryCatch_def)
    with e1 show ?thesis by simp
  next
    case (Inl e)
    with a m have "h e st1 = (r, st')" by (simp add: tryCatch_def)
    then have "extends w st1 st'" using assms(2) by (rule io_extendsD [rotated])
    with e1 show ?thesis by (rule extends_trans)
  qed
qed

lemma io_extends_if:
  "io_extends w a \<Longrightarrow> io_extends w b \<Longrightarrow> io_extends w (if c then a else b)"
  by simp

lemma extends_emit_tick:
  "quiet ev \<Longrightarrow> enqueued [ev] = [] \<Longrightarrow> extends w st (emit ev (tick st))"
  by (rule extends_trans [OF extends_tick extends_emit])

lemma extends_axios: "axios w v req st = (r, st') \<Longrightarrow> extends w st st'"
  unfolding axios_def by (auto simp: extends_emit_tick)

lemma io_extends_api_request: "io_extends w (api_request w req)"
  by (rule io_extendsI)
     (auto simp: api_request_def split: prod.splits sum.splits dest: extends_axios)

lemma io_extends_invoke: "io_extends w (invoke w c a)"
  by (rule io_extendsI) (auto simp: invoke_def extends_emit_tick)

lemma io_extends_router_isOnline: "io_extends w (router_isOnline w)"
  by (rule io_extendsI)
     (auto simp: router_isOnline_def checkConnectivity_def extends_refl
           split: prod.splits sum.splits if_splits dest: extends_axios)

lemma io_extends_toast: "io_extends w (toast_success m)"
  by (rule io_extendsI) (auto simp: toast_success_def extends_emit)

lemma extends_session_expired:
  "extends w st (emit (Redirect u) (emit Logout (emit (ToastError m) st)))"
  by (rule extends_trans [OF extends_emit extends_trans [OF extends_emit extends_emit]]) simp_all

lemma io_extends_addToSyncQueue: "io_extends w (addToSyncQueue w ot ep me p)"
  by (rule io_extendsI)
     (auto simp: addToSyncQueue_def Let_def extends_refl extends_addToQueue split: option.splits)

lemma io_extends_new_Date: "io_extends w (new_Date w)"
  by (rule io_extendsI) (auto simp: new_Date_def extends_tick)

lemma io_extends_secureInvoke: "io_extends w (secureInvoke w c a)"
proof (rule io_extendsI)
  fix st r st' assume a: "secureInvoke w c a st = (r, st')"
  show "extends w st st'"
  proof (cases "authToken w (clock st)")
    case None
    with a show ?thesis by (simp add: secureInvoke_def extends_refl)
  next
    case (Some tok)
    show ?thesis
    proof (cases "tok = []")
      case True
      with a Some show ?thesis by (simp add: secureInvoke_def extends_refl)
    next
      case False
      let ?h = "\<lambda>error st1.
                 case any_includes (thrown_value error)
                        [''Invalid token'', ''Token expired'', ''Authentication failed'',
                         ''Unauthorized'', ''Permission denied''] of
                   Inl err \<Rightarrow> (Inl err, st1)
                 | Inr True \<Rightarrow>
                     (Inl (Error ''Authentication failed''),
                      emit (Redirect ''/login'')
                        (emit Logout
                          (emit (ToastError ''Your session has expired. Please log in again.'') st1)))
                 | Inr False \<Rightarrow> (Inl error, st1)"
      have h: "\<And>e. io_extends w (?h e)"
        by (rule io_extendsI)
           (auto split: sum.splits bool.splits simp: extends_refl extends_session_expired)
      have "io_extends w (tryCatch
              (invoke w c (JObj (obj_set (spread a) ''token'' (JStr tok)))) ?h)"
        by (rule io_extends_tryCatch [OF io_extends_invoke h])
      moreover from a Some False have
        "tryCatch (invoke w c (JObj (obj_set (spread a) ''token'' (JStr tok)))) ?h st = (r, st')"
        by (simp add: secureInvoke_def)
      ultimately show ?thesis by (rule io_extendsD)
    qed
  qed
qed

lemmas io_extends_intros =
  io_extends_andThen io_extends_tryCatch io_extends_resolve io_extends_reject io_extends_settle
  io_extends_if io_extends_invoke io_extends_router_isOnline io_extends_toast
  io_extends_addToSyncQueue io_extends_api_request io_extends_new_Date io_extends_secureInvoke

lemma io_extends_router_create: "io_extends w (router_create w ep d cmd ot)"
  unfolding router_create_def createOfflineAndQueue_def updateLocalData_def api_post_def
  by (intro io_extends_intros)

lemma io_extends_router_update: "io_extends w (router_update w ep d cmd args ot)"
  unfolding router_update_def updateOfflineAndQueue_def updateLocalData_def api_put_def
  by (intro io_extends_intros)

lemma io_extends_router_delete: "io_extends w (router_delete w ep cmd args ot)"
  unfolding router_delete_def deleteOfflineAndQueue_def api_delete_def
  by (intro io_extends_intros)

lemma io_extends_router_get: "io_extends w (router_get w ep cmd args)"
  unfolding router_get_def updateLocalData_def api_get_def
  by (intro io_extends_intros)

lemmas io_extends_router =
  io_extends_router_create io_extends_router_update io_extends_router_delete io_extends_router_get

lemma io_extends_syncProduct: "io_extends w (syncProduct w ty d)"
  unfolding syncProduct_def void_def inventoryService_createProduct_def
    inventoryService_updateProduct_def inventoryService_deleteProduct_def
    products_create_def products_update_def products_delete_def
  by (intro io_extends_intros io_extends_router)

lemma io_extends_syncSupplier: "io_extends w (syncSupplier w ty d)"
  unfolding syncSupplier_def void_def inventoryService_createSupplier_def
    inventoryService_updateSupplier_def inventoryService_deleteSupplier_def
    suppliers_create_def suppliers_update_def suppliers_delete_def
  by (intro io_extends_intros io_extends_router)

lemma io_extends_syncUser: "io_extends w (syncUser w ty d)"
  unfolding syncUser_def void_def userService_createUser_def userService_updateUser_def
    userService_deleteUser_def users_create_def
  by (intro io_extends_intros io_extends_router)

lemma io_extends_case_json:
  "(\<And>n. io_extends w (f n)) \<Longrightarrow> io_extends w g \<Longrightarrow>
   io_extends w (case v of JNum n \<Rightarrow> f n | _ \<Rightarrow> g)"
  by (cases v) auto

lemma io_extends_syncOrder: "io_extends w (syncOrder w ty d)"
  unfolding syncOrder_def void_def posService_createOrder_def posService_completeOrder_def
    posService_cancelOrder_def orders_create_def orders_getById_def orders_complete_def
    orders_cancel_def
  by (intro io_extends_intros io_extends_router io_extends_case_json)

lemma io_extends_processOperation: "io_extends w (processOperation w operation)"
  unfolding processOperation_def
  by (intro io_extends_intros io_extends_syncProduct io_extends_syncUser io_extends_syncOrder
        io_extends_syncSupplier)

section \<open>One replay step\<close>

lemma extends_interleave: "extends w st (interleave w st)"
proof -
  have "extends w s (foldl (\<lambda>s r. addToQueue w r s) s rs)" for s rs
  proof (induction rs arbitrary: s)
    case Nil
    show ?case by (simp add: extends_refl)
  next
    case (Cons r rs)
    have "extends w s (addToQueue w r s)" by (rule extends_addToQueue)
    moreover have "extends w (addToQueue w r s) (foldl (\<lambda>s r. addToQueue w r s) (addToQueue w r s) rs)"
      by (rule Cons.IH)
    ultimately show ?case by (simp add: extends_trans)
  qed
  then have "extends w (tick st) (interleave w st)" by (simp add: interleave_def)
  with extends_tick show ?thesis by (rule extends_trans)
qed

text \<open>The state in which the outcome of a replay is recorded.\<close>

lemma replay_state:
  assumes "processOperation w q (interleave w (emit (Attempt q) st)) = (r, st1)"
  obtains tr c where
    "st1 = st\<lparr>syncQueue := syncQueue st @ enqueued tr, trace := trace st @ Attempt q # tr,
               clock := c\<rparr>"
    "clock st \<le> c" "\<forall>ev \<in> set tr. quiet ev"
    "\<forall>e \<in> set (enqueued tr). retryCount e = 0
        \<and> (\<exists>t. clock st \<le> t \<and> t < c \<and> op_id e = new_id w t)"
proof -
  let ?a = "emit (Attempt q) st"
  have "extends w ?a (interleave w ?a)" by (rule extends_interleave)
  moreover have "extends w (interleave w ?a) st1"
    using io_extends_processOperation assms by (rule io_extendsD)
  ultimately have "extends w ?a st1" by (rule extends_trans)
  then obtain tr c where
    1: "st1 = ?a\<lparr>syncQueue := syncQueue ?a @ enqueued tr, trace := trace ?a @ tr, clock := c\<rparr>"
    and 2: "clock ?a \<le> c" and 3: "\<forall>ev \<in> set tr. quiet ev"
    and 4: "\<forall>e \<in> set (enqueued tr). retryCount e = 0
        \<and> (\<exists>t. clock ?a \<le> t \<and> t < c \<and> op_id e = new_id w t)"
    unfolding extends_def by blast
  show thesis
  proof (rule that)
    show "st1 = st\<lparr>syncQueue := syncQueue st @ enqueued tr, trace := trace st @ Attempt q # tr,
               clock := c\<rparr>"
      using 1 by (simp add: emit_def)
    show "clock st \<le> c" using 2 by (simp add: emit_def)
    show "\<forall>ev \<in> set tr. quiet ev" by (rule 3)
    show "\<forall>e \<in> set (enqueued tr). retryCount e = 0
        \<and> (\<exists>t. clock st \<le> t \<and> t < c \<and> op_id e = new_id w t)"
      using 4 by (simp add: emit_def)
  qed
qed

lemmas outcome_defs =
  record_outcome_def removeFromQueue_def incrementRetryCount_def addSyncError_def emit_def Let_def

lemma filter_fresh_enqueued:
  assumes "fresh w i st"
    and "\<forall>e \<in> set qs. retryCount e = 0 \<and> (\<exists>t. clock st \<le> t \<and> t < c \<and> op_id e = new_id w t)"
  shows "filter (\<lambda>q. op_id q = i) qs = []"
proof -
  have "op_id e \<noteq> i" if "e \<in> set qs" for e
  proof -
    from assms(2) that obtain t where "clock st \<le> t" "op_id e = new_id w t" by blast
    with assms(1) show ?thesis unfolding fresh_def by metis
  qed
  then show ?thesis by (auto simp: filter_empty_conv)
qed

lemma entries_removeFromQueue:
  "entries i (removeFromQueue j st) = (if i = j then [] else entries i st)"
proof (cases "i = j")
  case True
  then show ?thesis by (simp add: entries_def removeFromQueue_def)
next
  case False
  then have "(op_id x \<noteq> j \<and> op_id x = i) = (op_id x = i)" for x :: QueuedOperation by auto
  with False show ?thesis by (simp add: entries_def removeFromQueue_def)
qed

lemma entries_incrementRetryCount:
  "entries i (incrementRetryCount j st) = (if i = j then map bump (entries i st) else entries i st)"
proof (cases "i = j")
  case True
  have "filter (\<lambda>x. op_id x = j)
          (map (\<lambda>x. if op_id x = j then x\<lparr>retryCount := retryCount x + 1\<rparr> else x) xs)
        = map bump (filter (\<lambda>x. op_id x = j) xs)" for xs
    by (induction xs) (auto simp: bump_def)
  with True show ?thesis unfolding entries_def incrementRetryCount_def by simp
next
  case False
  then have "filter (\<lambda>x. op_id x = i)
          (map (\<lambda>x. if op_id x = j then x\<lparr>retryCount := retryCount x + 1\<rparr> else x) xs)
        = filter (\<lambda>x. op_id x = i) xs" for xs
    by (induction xs) auto
  with False show ?thesis unfolding entries_def incrementRetryCount_def by simp
qed

lemma entries_emit: "entries i (emit ev st) = entries i st"
  by (simp add: entries_def emit_def)

lemma entries_addSyncError: "entries i (addSyncError m st) = entries i st"
  by (simp add: entries_def addSyncError_def)

lemmas entries_simps =
  entries_removeFromQueue entries_incrementRetryCount entries_emit entries_addSyncError

lemma sync_step_attempts:
  "attempts (trace (sync_step w q st)) = attempts (trace st) @ [q]"
proof -
  obtain r st1 where p: "processOperation w q (interleave w (emit (Attempt q) st)) = (r, st1)"
    by force
  from p obtain tr c where
    st1: "st1 = st\<lparr>syncQueue := syncQueue st @ enqueued tr, trace := trace st @ Attempt q # tr,
               clock := c\<rparr>"
    and quiet: "\<forall>ev \<in> set tr. quiet ev"
    by (rule replay_state)
  have "attempts tr = []" using quiet by (rule attempts_quiet)
  then show ?thesis
    unfolding sync_step_def p
    by (cases r) (simp_all add: outcome_defs st1 attempts_append)
qed

lemma sync_step_fields:
  "isOnline (sync_step w q st) = isOnline st"
  "isSyncing (sync_step w q st) = isSyncing st"
  "lastSyncAttempt (sync_step w q st) = lastSyncAttempt st"
  "syncInterval (sync_step w q st) = syncInterval st"
  "isInitialized (sync_step w q st) = isInitialized st"
  "timeouts (sync_step w q st) = timeouts st"
proof -
  obtain r st1 where p: "processOperation w q (interleave w (emit (Attempt q) st)) = (r, st1)"
    by force
  from p obtain tr c where
    st1: "st1 = st\<lparr>syncQueue := syncQueue st @ enqueued tr, trace := trace st @ Attempt q # tr,
               clock := c\<rparr>"
    by (rule replay_state)
  show "isOnline (sync_step w q st) = isOnline st"
    "isSyncing (sync_step w q st) = isSyncing st"
    "lastSyncAttempt (sync_step w q st) = lastSyncAttempt st"
    "syncInterval (sync_step w q st) = syncInterval st"
    "isInitialized (sync_step w q st) = isInitialized st"
    "timeouts (sync_step w q st) = timeouts st"
    unfolding sync_step_def p
    by (cases r; simp add: outcome_defs st1)+
qed

lemma sync_step_clock: "clock st \<le> clock (sync_step w q st)"
proof -
  obtain r st1 where p: "processOperation w q (interleave w (emit (Attempt q) st)) = (r, st1)"
    by force
  from p obtain tr c where
    st1: "st1 = st\<lparr>syncQueue := syncQueue st @ enqueued tr, trace := trace st @ Attempt q # tr,
               clock := c\<rparr>"
    and c: "clock st \<le> c"
    by (rule replay_state)
  show ?thesis
    unfolding sync_step_def p using c
    by (cases r) (simp_all add: outcome_defs st1)
qed

lemma fresh_mono: "fresh w i st \<Longrightarrow> clock st \<le> clock st' \<Longrightarrow> fresh w i st'"
  unfolding fresh_def by auto

lemma sync_step_fresh: "fresh w i st \<Longrightarrow> fresh w i (sync_step w q st)"
  by (erule fresh_mono) (rule sync_step_clock)

lemma sync_step_other:
  assumes "fresh w i st" and "i \<noteq> op_id q"
  shows "entries i (sync_step w q st) = entries i st"
    and "verdicts i (trace (sync_step w q st)) = verdicts i (trace st)"
proof -
  obtain r st1 where p: "processOperation w q (interleave w (emit (Attempt q) st)) = (r, st1)"
    by force
  from p obtain tr c where
    st1: "st1 = st\<lparr>syncQueue := syncQueue st @ enqueued tr, trace := trace st @ Attempt q # tr,
               clock := c\<rparr>"
    and quiet: "\<forall>ev \<in> set tr. quiet ev"
    and ids: "\<forall>e \<in> set (enqueued tr). retryCount e = 0
        \<and> (\<exists>t. clock st \<le> t \<and> t < c \<and> op_id e = new_id w t)"
    by (rule replay_state)
  have none: "filter (\<lambda>q. op_id q = i) (enqueued tr) = []"
    using assms(1) ids by (rule filter_fresh_enqueued)
  have e1: "entries i st1 = entries i st"
    using none by (simp add: entries_def st1)
  show "entries i (sync_step w q st) = entries i st"
    unfolding sync_step_def p using assms(2) e1
    by (cases r) (simp_all add: record_outcome_def Let_def entries_simps)
  have v: "verdicts i tr = []"
    unfolding verdicts_def using quiet by (auto simp: filter_empty_conv)
  show "verdicts i (trace (sync_step w q st)) = verdicts i (trace st)"
    unfolding sync_step_def p
    using assms(2) v
    by (cases r) (auto simp: outcome_defs st1 verdicts_def)
qed

text \<open>The step that replays \<open>q\<close> decides what happens to the queue entries with its id.\<close>

lemma sync_step_own:
  assumes "fresh w (op_id q) st"
    and "processOperation w q (interleave w (emit (Attempt q) st)) = (r, st1)"
  shows "entries (op_id q) (sync_step w q st) =
           (case r of
              Inr u \<Rightarrow> []
            | Inl e \<Rightarrow> if retryCount q \<ge> maxRetries q then []
                       else map bump (entries (op_id q) st))"
    and "verdicts (op_id q) (trace (sync_step w q st)) =
           verdicts (op_id q) (trace st) @
           (case r of
              Inr u \<Rightarrow> [Synced (op_id q)]
            | Inl e \<Rightarrow> if retryCount q \<ge> maxRetries q
                       then [SyncFailed (op_id q), Evicted (op_id q)]
                       else [SyncFailed (op_id q)])"
    and "syncErrors (sync_step w q st) =
           syncErrors st @
           (case r of
              Inr u \<Rightarrow> []
            | Inl e \<Rightarrow> if retryCount q \<ge> maxRetries q then [eviction_message q] else [])"
proof -
  from assms(2) obtain tr c where
    st1: "st1 = st\<lparr>syncQueue := syncQueue st @ enqueued tr, trace := trace st @ Attempt q # tr,
               clock := c\<rparr>"
    and quiet: "\<forall>ev \<in> set tr. quiet ev"
    and ids: "\<forall>e \<in> set (enqueued tr). retryCount e = 0
        \<and> (\<exists>t. clock st \<le> t \<and> t < c \<and> op_id e = new_id w t)"
    by (rule replay_state)
  have none: "filter (\<lambda>x. op_id x = op_id q) (enqueued tr) = []"
    using assms(1) ids by (rule filter_fresh_enqueued)
  have e1: "entries (op_id q) st1 = entries (op_id q) st"
    using none by (simp add: entries_def st1)
  show "entries (op_id q) (sync_step w q st) =
           (case r of
              Inr u \<Rightarrow> []
            | Inl e \<Rightarrow> if retryCount q \<ge> maxRetries q then []
                       else map bump (entries (op_id q) st))"
    unfolding sync_step_def assms(2) using e1
    by (cases r) (simp_all add: record_outcome_def Let_def entries_simps)
  have v: "verdicts (op_id q) tr = []"
    unfolding verdicts_def using quiet by (auto simp: filter_empty_conv)
  show "verdicts (op_id q) (trace (sync_step w q st)) =
           verdicts (op_id q) (trace st) @
           (case r of
              Inr u \<Rightarrow> [Synced (op_id q)]
            | Inl e \<Rightarrow> if retryCount q \<ge> maxRetries q
                       then [SyncFailed (op_id q), Evicted (op_id q)]
                       else [SyncFailed (op_id q)])"
    unfolding sync_step_def assms(2)
    using v by (cases r) (auto simp: outcome_defs st1 verdicts_def)
  show "syncErrors (sync_step w q st) =
           syncErrors st @
           (case r of
              Inr u \<Rightarrow> []
            | Inl e \<Rightarrow> if retryCount q \<ge> maxRetries q then [eviction_message q] else [])"
    unfolding sync_step_def assms(2)
    by (cases r) (simp_all add: outcome_defs st1 eviction_message_def)
qed

section \<open>The loop and the pass\<close>

lemma sync_loop_append: "sync_loop w (xs @ ys) st = sync_loop w ys (sync_loop w xs st)"
  by (induction xs arbitrary: st) auto

lemma sync_loop_attempts:
  "attempts (trace (sync_loop w ops st)) = attempts (trace st) @ ops"
  by (induction ops arbitrary: st) (auto simp: sync_step_attempts)

lemma sync_loop_fields:
  "isOnline (sync_loop w ops st) = isOnline st"
  "isSyncing (sync_loop w ops st) = isSyncing st"
  "lastSyncAttempt (sync_loop w ops st) = lastSyncAttempt st"
  "syncInterval (sync_loop w ops st) = syncInterval st"
  "isInitialized (sync_loop w ops st) = isInitialized st"
  "timeouts (sync_loop w ops st) = timeouts st"
  by (induction ops arbitrary: st; simp add: sync_step_fields)+

lemma sync_loop_clock: "clock st \<le> clock (sync_loop w ops st)"
proof (induction ops arbitrary: st)
  case Nil
  show ?case by simp
next
  case (Cons q ops)
  have "clock st \<le> clock (sync_step w q st)" by (rule sync_step_clock)
  also have "\<dots> \<le> clock (sync_loop w ops (sync_step w q st))" by (rule Cons.IH)
  finally show ?case by simp
qed

lemma sync_loop_fresh: "fresh w i st \<Longrightarrow> fresh w i (sync_loop w ops st)"
  by (erule fresh_mono) (rule sync_loop_clock)

lemma sync_loop_absent:
  assumes "fresh w i st" and "i \<notin> op_id ` set ops"
  shows "entries i (sync_loop w ops st) = entries i st"
    and "verdicts i (trace (sync_loop w ops st)) = verdicts i (trace st)"
  using assms
proof (induction ops arbitrary: st)
  case Nil
  { case 1 show ?case by simp }
  { case 2 show ?case by simp }
next
  case (Cons q ops)
  { case 1
    then have f: "fresh w i (sync_step w q st)" and ne: "i \<noteq> op_id q" and rest: "i \<notin> op_id ` set ops"
      by (auto intro: sync_step_fresh)
    have "entries i (sync_loop w ops (sync_step w q st)) = entries i (sync_step w q st)"
      using f rest by (rule Cons.IH(1))
    also have "\<dots> = entries i st" using 1(1) ne by (rule sync_step_other)
    finally show ?case by simp }
  { case 2
    then have f: "fresh w i (sync_step w q st)" and ne: "i \<noteq> op_id q" and rest: "i \<notin> op_id ` set ops"
      by (auto intro: sync_step_fresh)
    have "verdicts i (trace (sync_loop w ops (sync_step w q st))) = verdicts i (trace (sync_step w q st))"
      using f rest by (rule Cons.IH(2))
    also have "\<dots> = verdicts i (trace st)" using 2(1) ne by (rule sync_step_other)
    finally show ?case by simp }
qed

lemma sync_step_errors_grow: "\<exists>extra. syncErrors (sync_step w q st) = syncErrors st @ extra"
proof -
  obtain r st1 where p: "processOperation w q (interleave w (emit (Attempt q) st)) = (r, st1)"
    by force
  from p obtain tr c where
    st1: "st1 = st\<lparr>syncQueue := syncQueue st @ enqueued tr, trace := trace st @ Attempt q # tr,
               clock := c\<rparr>"
    by (rule replay_state)
  show ?thesis
    unfolding sync_step_def p
    by (cases r) (simp_all add: outcome_defs st1)
qed

lemma sync_loop_errors_grow: "\<exists>extra. syncErrors (sync_loop w ops st) = syncErrors st @ extra"
proof (induction ops arbitrary: st)
  case Nil
  show ?case by simp
next
  case (Cons q ops)
  obtain a where a: "syncErrors (sync_step w q st) = syncErrors st @ a"
    using sync_step_errors_grow by blast
  obtain b where "syncErrors (sync_loop w ops (sync_step w q st)) = syncErrors (sync_step w q st) @ b"
    using Cons.IH by blast
  with a show ?case by simp
qed

lemma performSync_idle: "\<not> may_start st \<Longrightarrow> performSync w st = st"
  by (auto simp: performSync_def may_start_def)

lemma performSync_run:
  "may_start st \<Longrightarrow>
   performSync w st = setSyncing w False (sync_loop w (syncQueue st) (pass_start w st))"
  by (auto simp: performSync_def may_start_def pass_start_def)

lemma pass_start_simps:
  "entries i (pass_start w st) = entries i st"
  "trace (pass_start w st) = trace st"
  "clock (pass_start w st) = clock st + 1"
  "syncQueue (pass_start w st) = syncQueue st"
  "syncErrors (pass_start w st) = []"
  "isOnline (pass_start w st) = isOnline st"
  "isSyncing (pass_start w st) = True"
  "lastSyncAttempt (pass_start w st) = Some (date_now w (clock st))"
  "timeouts (pass_start w st) = timeouts st"
  "syncInterval (pass_start w st) = syncInterval st"
  "isInitialized (pass_start w st) = isInitialized st"
  by (simp_all add: pass_start_def clearSyncErrors_def setSyncing_def tick_def entries_def)

lemma setSyncing_False_simps:
  "entries i (setSyncing w False st) = entries i st"
  "trace (setSyncing w False st) = trace st"
  "clock (setSyncing w False st) = clock st"
  "syncQueue (setSyncing w False st) = syncQueue st"
  "syncErrors (setSyncing w False st) = syncErrors st"
  "isOnline (setSyncing w False st) = isOnline st"
  "isSyncing (setSyncing w False st) = False"
  "lastSyncAttempt (setSyncing w False st) = lastSyncAttempt st"
  "timeouts (setSyncing w False st) = timeouts st"
  "syncInterval (setSyncing w False st) = syncInterval st"
  "isInitialized (setSyncing w False st) = isInitialized st"
  by (simp_all add: setSyncing_def entries_def)

lemma fresh_pass_start: "fresh w i st \<Longrightarrow> fresh w i (pass_start w st)"
  by (erule fresh_mono) (simp add: pass_start_simps)

lemma performSync_clock: "clock st \<le> clock (performSync w st)"
proof (cases "may_start st")
  case False
  then show ?thesis by (simp add: performSync_idle)
next
  case True
  have "clock st \<le> clock (pass_start w st)" by (simp add: pass_start_simps)
  also have "\<dots> \<le> clock (sync_loop w (syncQueue st) (pass_start w st))" by (rule sync_loop_clock)
  finally show ?thesis using True by (simp add: performSync_run setSyncing_False_simps)
qed

lemma performSync_fresh: "fresh w i st \<Longrightarrow> fresh w i (performSync w st)"
  by (erule fresh_mono) (rule performSync_clock)


text \<open>
  The fate of one operation of the snapshot whose id no other queue entry has: the pass
  replays it once, in some state \<open>sa\<close>, and the result \<open>r\<close> of that replay decides.
\<close>

lemma split_unique:
  assumes "filter (\<lambda>x. op_id x = op_id q) xs = [q]"
  obtains pre post where "xs = pre @ q # post"
    "op_id q \<notin> op_id ` set pre" "op_id q \<notin> op_id ` set post"
proof -
  have "q \<in> set (filter (\<lambda>x. op_id x = op_id q) xs)" using assms by simp
  then have "q \<in> set xs" by simp
  then obtain pre post where xs: "xs = pre @ q # post" by (meson split_list)
  have "filter (\<lambda>x. op_id x = op_id q) pre @ q # filter (\<lambda>x. op_id x = op_id q) post = [q]"
    using assms xs by simp
  then have "filter (\<lambda>x. op_id x = op_id q) pre = []" "filter (\<lambda>x. op_id x = op_id q) post = []"
    by (auto simp: append_eq_Cons_conv)
  then have "op_id q \<notin> op_id ` set pre" "op_id q \<notin> op_id ` set post"
    by (auto simp: filter_empty_conv)
  with xs show thesis by (rule that)
qed

lemma pass_own:
  assumes start: "may_start st"
    and unique: "entries (op_id q) st = [q]"
    and fresh: "fresh w (op_id q) st"
  obtains sa r s1 where
    "processOperation w q (interleave w (emit (Attempt q) sa)) = (r, s1)"
    "entries (op_id q) (performSync w st) =
       (case r of Inr u \<Rightarrow> []
        | Inl e \<Rightarrow> if retryCount q \<ge> maxRetries q then [] else [bump q])"
    "verdicts (op_id q) (trace (performSync w st)) =
       verdicts (op_id q) (trace st) @
       (case r of Inr u \<Rightarrow> [Synced (op_id q)]
        | Inl e \<Rightarrow> if retryCount q \<ge> maxRetries q
                   then [SyncFailed (op_id q), Evicted (op_id q)]
                   else [SyncFailed (op_id q)])"
    "(case r of Inr u \<Rightarrow> True
      | Inl e \<Rightarrow> retryCount q \<ge> maxRetries q \<longrightarrow>
                   eviction_message q \<in> set (syncErrors (performSync w st)))"
proof -
  let ?i = "op_id q"
  from unique obtain pre post where
    xs: "syncQueue st = pre @ q # post" and npre: "?i \<notin> op_id ` set pre"
    and npost: "?i \<notin> op_id ` set post"
    unfolding entries_def by (rule split_unique)
  let ?s0 = "pass_start w st"
  let ?sa = "sync_loop w pre ?s0"
  let ?sb = "sync_step w q ?sa"
  let ?sc = "sync_loop w post ?sb"
  have run: "performSync w st = setSyncing w False ?sc"
    using start by (simp add: performSync_run xs sync_loop_append)
  have f0: "fresh w ?i ?s0" using fresh by (rule fresh_pass_start)
  have fa: "fresh w ?i ?sa" using f0 by (rule sync_loop_fresh)
  have fb: "fresh w ?i ?sb" using fa by (rule sync_step_fresh)
  have ea: "entries ?i ?sa = [q]"
    using sync_loop_absent(1) [OF f0 npre] unique by (simp add: pass_start_simps)
  have va: "verdicts ?i (trace ?sa) = verdicts ?i (trace st)"
    using sync_loop_absent(2) [OF f0 npre] by (simp add: pass_start_simps)
  obtain r s1 where p: "processOperation w q (interleave w (emit (Attempt q) ?sa)) = (r, s1)"
    by force
  note own = sync_step_own [OF fa p]
  have ec: "entries ?i ?sc = entries ?i ?sb" using fb npost by (rule sync_loop_absent)
  have vc: "verdicts ?i (trace ?sc) = verdicts ?i (trace ?sb)"
    using fb npost by (rule sync_loop_absent)
  obtain extra where grow: "syncErrors ?sc = syncErrors ?sb @ extra"
    using sync_loop_errors_grow by blast
  show thesis
  proof (rule that [OF p])
    show "entries ?i (performSync w st) =
       (case r of Inr u \<Rightarrow> []
        | Inl e \<Rightarrow> if retryCount q \<ge> maxRetries q then [] else [bump q])"
      using own(1) ea ec by (cases r) (simp_all add: run setSyncing_False_simps)
    show "verdicts ?i (trace (performSync w st)) =
       verdicts ?i (trace st) @
       (case r of Inr u \<Rightarrow> [Synced ?i]
        | Inl e \<Rightarrow> if retryCount q \<ge> maxRetries q
                   then [SyncFailed ?i, Evicted ?i]
                   else [SyncFailed ?i])"
      using own(2) va vc by (cases r) (simp_all add: run setSyncing_False_simps)
    show "(case r of Inr u \<Rightarrow> True
      | Inl e \<Rightarrow> retryCount q \<ge> maxRetries q \<longrightarrow>
                   eviction_message q \<in> set (syncErrors (performSync w st)))"
      using own(3) grow by (cases r) (auto simp: run setSyncing_False_simps)
  qed
qed

section \<open>Connectivity\<close>

text \<open>
  Claim C8. \<open>isOnline\<close> of the router answers true exactly when \<open>navigator.onLine\<close> is true
  and the probe, a GET of \<open>/auth/me\<close> with a timeout of 5000 ms, is answered with a status
  below 500 (so 401 and 403 count as reachable); a probe that axios rejects counts as
  unreachable, and the probe is only sent when the platform signal is true.
\<close>

theorem isOnline_platform_and_probe:
  "router_isOnline w st =
     (Inr (navigator_onLine w (clock st) \<and>
           (case transport w (clock st)
                   \<lparr>http_method = ''GET'', url = ''/auth/me'', body = JUndefined, timeout = 5000\<rparr> of
              Inl err \<Rightarrow> False
            | Inr r \<Rightarrow> status r < 500)),
      if navigator_onLine w (clock st)
      then emit (Remote \<lparr>http_method = ''GET'', url = ''/auth/me'', body = JUndefined, timeout = 5000\<rparr>)
             (tick st)
      else st)"
  by (simp add: router_isOnline_def checkConnectivity_def axios_def split: sum.splits)

section \<open>The router\<close>

lemma router_mutation_online:
  assumes "router_isOnline w st = (Inr True, st1)"
  shows "router_get w ep cmd args st =
           tryCatch
             (andThen (api_get w ep) (\<lambda>result.
              andThen (updateLocalData cmd result) (\<lambda>u. resolve result)))
             (\<lambda>error. if isNetworkError error then invoke w cmd args else reject error) st1"
    and "router_create w ep d cmd ot st =
           tryCatch
             (andThen (api_post w ep d) (\<lambda>result.
              andThen (updateLocalData cmd result) (\<lambda>u. resolve result)))
             (\<lambda>error. if isNetworkError error then createOfflineAndQueue w d ep cmd ot
                       else reject error) st1"
    and "router_update w ep d cmd args ot st =
           tryCatch
             (andThen (api_put w ep d) (\<lambda>result.
              andThen (updateLocalData cmd result) (\<lambda>u. resolve result)))
             (\<lambda>error. if isNetworkError error then updateOfflineAndQueue w d ep cmd args ot
                       else reject error) st1"
    and "router_delete w ep cmd args ot st =
           tryCatch
             (andThen (api_delete w ep) (\<lambda>result.
              andThen (invoke w cmd args) (\<lambda>u. resolve result)))
             (\<lambda>error. if isNetworkError error then deleteOfflineAndQueue w ep cmd args ot
                       else reject error) st1"
  using assms
  by (simp_all add: router_get_def router_create_def router_update_def router_delete_def
        andThen_def)

lemma router_offline:
  assumes "router_isOnline w st = (Inr False, st1)"
  shows "router_get w ep cmd args st = invoke w cmd args st1"
    and "router_create w ep d cmd ot st = createOfflineAndQueue w d ep cmd ot st1"
    and "router_update w ep d cmd args ot st = updateOfflineAndQueue w d ep cmd args ot st1"
    and "router_delete w ep cmd args ot st = deleteOfflineAndQueue w ep cmd args ot st1"
  using assms
  by (simp_all add: router_get_def router_create_def router_update_def router_delete_def
        andThen_def)

lemma api_request_failed:
  "axios w (\<lambda>s. 200 \<le> s \<and> s < 300) req st = (Inl e, st') \<Longrightarrow>
   api_request w req st = (Inl (handleError e), st')"
  by (simp add: api_request_def)

lemma api_request_ok:
  "axios w (\<lambda>s. 200 \<le> s \<and> s < 300) req st = (Inr r, st') \<Longrightarrow>
   api_request w req st = (Inr (rdata r), st')"
  by (simp add: api_request_def)



lemma test_world_online: "router_isOnline (test_world True net) st = (Inr True, probed st)"
  by (simp add: router_isOnline_def checkConnectivity_def axios_def test_world_def probed_def)

lemma test_world_offline: "router_isOnline (test_world False net) st = (Inr False, st)"
  by (simp add: router_isOnline_def test_world_def)

lemma test_world_axios:
  "url req \<noteq> ''/auth/me'' \<Longrightarrow>
   axios (test_world b net) v req st =
     ((case net req of Inl err \<Rightarrow> Inl err
       | Inr r \<Rightarrow> if v (status r) then Inr r else Inl (bad_status r)),
      emit (Remote req) (tick st))"
  by (simp add: axios_def test_world_def)

lemma test_world_simps:
  "tauri (test_world b net) t c a = Inr (JNum 7)"
  "new_id (test_world b net) t = CHR ''n'' # show_nat t"
  "date_now (test_world b net) t = 1000 + t"
  "arrivals (test_world b net) t = []"
  "authToken (test_world b net) t = Some ''token''"
  by (simp_all add: test_world_def)

lemma split_product_create: "split_on CHR ''_'' ''product_create'' = [''product'', ''create'']"
  by simp


lemma offline_and_queue:
  assumes "tauri w (clock st1) cmd a = Inr v"
    and "split_on CHR ''_'' ot = ent # ty # segs"
  shows "andThen (invoke w cmd a) (\<lambda>result.
         andThen (addToSyncQueue w ot ep meth payload) (\<lambda>u.
         andThen (toast_success msg) (\<lambda>u. resolve result))) st1
       = (Inr v,
          st1\<lparr>syncQueue := syncQueue st1 @ [queued w (clock st1 + 1) ent ty ep meth payload],
              trace := trace st1 @ [Local cmd a,
                         Enqueue (queued w (clock st1 + 1) ent ty ep meth payload), Toast msg],
              clock := clock st1 + 2\<rparr>)"
  using assms
  by (cases st1)
     (simp add: andThen_def invoke_def addToSyncQueue_def at_index_def addToQueue_def
        toast_success_def resolve_def emit_def tick_def Let_def queued_def
      split: option.split)



lemma router_online_success:
  assumes "router_isOnline w st = (Inr True, st1)"
    and "axios w (\<lambda>s. 200 \<le> s \<and> s < 300)
           \<lparr>http_method = ''POST'', url = ep, body = d, timeout = 10000\<rparr> st1 = (Inr r, st2)"
  shows "router_create w ep d cmd ot st = (Inr (rdata r), st2)"
  using api_request_ok [OF assms(2)]
  by (simp add: router_mutation_online [OF assms(1)] tryCatch_def andThen_def api_post_def
        updateLocalData_def resolve_def)

text \<open>
  Claim C2. At the failing input (online, the server accepts the new product and returns
  it with its identifier) the call returns the server's result, and the only effects are the
  probe and the POST: no command reaches the Local Data Store.
\<close>

theorem online_create_skips_local_store:
  "products_create (test_world True created) milk (idle [])
     = (Inr (JObj [(''id'', JNum 1), (''name'', JStr ''Milk''), (''sku'', JStr ''MLK001'')]),
        (idle [])\<lparr>trace :=
            [Remote \<lparr>http_method = ''GET'', url = ''/auth/me'', body = JUndefined, timeout = 5000\<rparr>,
             Remote \<lparr>http_method = ''POST'', url = ''/inventory/products'', body = milk,
                     timeout = 10000\<rparr>],
          clock := 2\<rparr>)
   \<and> local_calls (trace (snd (products_create (test_world True created) milk (idle [])))) = []"
proof -
  let ?w = "test_world True created"
  have ax: "axios ?w (\<lambda>s. 200 \<le> s \<and> s < 300)
              \<lparr>http_method = ''POST'', url = ''/inventory/products'', body = milk, timeout = 10000\<rparr>
              (probed (idle []))
            = (Inr \<lparr>status = 201,
                    rdata = JObj [(''id'', JNum 1), (''name'', JStr ''Milk''),
                                  (''sku'', JStr ''MLK001'')]\<rparr>,
               emit (Remote \<lparr>http_method = ''POST'', url = ''/inventory/products'', body = milk,
                             timeout = 10000\<rparr>) (tick (probed (idle []))))"
    by (simp add: test_world_axios created_def)
  have "products_create ?w milk (idle [])
     = (Inr (JObj [(''id'', JNum 1), (''name'', JStr ''Milk''), (''sku'', JStr ''MLK001'')]),
        emit (Remote \<lparr>http_method = ''POST'', url = ''/inventory/products'', body = milk,
                             timeout = 10000\<rparr>) (tick (probed (idle []))))"
    unfolding products_create_def
    using router_online_success [OF test_world_online ax] by simp
  then show ?thesis
    by (simp add: probed_def emit_def tick_def idle_def local_calls_def)
qed

section \<open>The reconciliation pass\<close>

lemma replay_unknown_entity:
  assumes "entity q \<noteq> ''product''" "entity q \<noteq> ''user''" "entity q \<noteq> ''order''"
    "entity q \<noteq> ''supplier''"
  shows "processOperation w q s = (Inl (Error (''Unknown entity type: '' @ entity q)), s)"
  using assms by (simp add: processOperation_def reject_def)

lemma replay_unknown_type:
  assumes "entity q = ''product'' \<or> entity q = ''user'' \<or> entity q = ''order'' \<or>
           entity q = ''supplier''"
    and "type q \<noteq> ''CREATE''" "type q \<noteq> ''UPDATE''" "type q \<noteq> ''DELETE''"
  shows "processOperation w q s = (Inr (), s)"
  using assms
  by (auto simp: processOperation_def syncProduct_def syncUser_def syncOrder_def
        syncSupplier_def resolve_def)


lemma performSync_fields:
  "isOnline (performSync w st) = isOnline st"
  "isSyncing (performSync w st) = isSyncing st"
  "syncInterval (performSync w st) = syncInterval st"
  "isInitialized (performSync w st) = isInitialized st"
  "timeouts (performSync w st) = timeouts st"
proof -
  show "isOnline (performSync w st) = isOnline st"
    by (cases "may_start st")
       (simp_all add: performSync_idle performSync_run setSyncing_False_simps sync_loop_fields
          pass_start_simps)
  show "isSyncing (performSync w st) = isSyncing st"
    by (cases "may_start st")
       (simp_all add: performSync_idle performSync_run setSyncing_False_simps, simp add: may_start_def)
  show "syncInterval (performSync w st) = syncInterval st"
    by (cases "may_start st")
       (simp_all add: performSync_idle performSync_run setSyncing_False_simps sync_loop_fields
          pass_start_simps)
  show "isInitialized (performSync w st) = isInitialized st"
    by (cases "may_start st")
       (simp_all add: performSync_idle performSync_run setSyncing_False_simps sync_loop_fields
          pass_start_simps)
  show "timeouts (performSync w st) = timeouts st"
    by (cases "may_start st")
       (simp_all add: performSync_idle performSync_run setSyncing_False_simps sync_loop_fields
          pass_start_simps)
qed

lemma may_start_again:
  assumes "may_start st" and "entries i (performSync w st) \<noteq> []"
  shows "may_start (performSync w st)"
proof -
  have "syncQueue (performSync w st) \<noteq> []"
    using assms(2) by (auto simp: entries_def)
  with assms(1) show ?thesis by (simp add: may_start_def performSync_fields)
qed

text \<open>A replay that throws in every state: the passes count up to the ceiling, then evict.\<close>

lemma failing_pass:
  assumes fails: "\<And>s. \<exists>e s'. processOperation w q s = (Inl e, s')"
    and start: "may_start st" and unique: "entries (op_id q) st = [q]"
    and fresh: "fresh w (op_id q) st"
  shows "entries (op_id q) (performSync w st) =
           (if retryCount q \<ge> maxRetries q then [] else [bump q])"
    and "verdicts (op_id q) (trace (performSync w st)) =
           verdicts (op_id q) (trace st) @
           (if retryCount q \<ge> maxRetries q then [SyncFailed (op_id q), Evicted (op_id q)]
            else [SyncFailed (op_id q)])"
    and "retryCount q \<ge> maxRetries q \<Longrightarrow> eviction_message q \<in> set (syncErrors (performSync w st))"
proof -
  from start unique fresh obtain sa r s1 where
    p: "processOperation w q (interleave w (emit (Attempt q) sa)) = (r, s1)"
    and e: "entries (op_id q) (performSync w st) =
       (case r of Inr u \<Rightarrow> []
        | Inl e \<Rightarrow> if retryCount q \<ge> maxRetries q then [] else [bump q])"
    and v: "verdicts (op_id q) (trace (performSync w st)) =
       verdicts (op_id q) (trace st) @
       (case r of Inr u \<Rightarrow> [Synced (op_id q)]
        | Inl e \<Rightarrow> if retryCount q \<ge> maxRetries q
                   then [SyncFailed (op_id q), Evicted (op_id q)]
                   else [SyncFailed (op_id q)])"
    and m: "(case r of Inr u \<Rightarrow> True
      | Inl e \<Rightarrow> retryCount q \<ge> maxRetries q \<longrightarrow>
                   eviction_message q \<in> set (syncErrors (performSync w st)))"
    by (rule pass_own)
  from fails p obtain err where r: "r = Inl err" by (metis fst_conv)
  show "entries (op_id q) (performSync w st) =
           (if retryCount q \<ge> maxRetries q then [] else [bump q])"
    using e r by simp
  show "verdicts (op_id q) (trace (performSync w st)) =
           verdicts (op_id q) (trace st) @
           (if retryCount q \<ge> maxRetries q then [SyncFailed (op_id q), Evicted (op_id q)]
            else [SyncFailed (op_id q)])"
    using v r by simp
  show "retryCount q \<ge> maxRetries q \<Longrightarrow> eviction_message q \<in> set (syncErrors (performSync w st))"
    using m r by simp
qed

lemma failing_passes:
  assumes fails: "\<And>s k. \<exists>e s'. processOperation w (q\<lparr>retryCount := retryCount q + k\<rparr>) s = (Inl e, s')"
    and start: "may_start st" and unique: "entries (op_id q) st = [q]"
    and fresh: "fresh w (op_id q) st"
    and k: "retryCount q + k \<le> maxRetries q"
  shows "entries (op_id q) ((performSync w ^^ k) st) = [q\<lparr>retryCount := retryCount q + k\<rparr>]
       \<and> may_start ((performSync w ^^ k) st) \<and> fresh w (op_id q) ((performSync w ^^ k) st)"
  using k
proof (induction k)
  case 0
  show ?case using start unique fresh by simp
next
  case (Suc k)
  let ?s = "(performSync w ^^ k) st"
  let ?q = "q\<lparr>retryCount := retryCount q + k\<rparr>"
  from Suc have ih: "entries (op_id q) ?s = [?q]" "may_start ?s" "fresh w (op_id q) ?s"
    by simp_all
  have lt: "retryCount ?q < maxRetries ?q" using Suc.prems by simp
  have f: "\<And>s. \<exists>e s'. processOperation w ?q s = (Inl e, s')" using fails by blast
  have "entries (op_id ?q) (performSync w ?s) =
           (if retryCount ?q \<ge> maxRetries ?q then [] else [bump ?q])"
    using f ih(2) by (rule failing_pass) (use ih in simp_all)
  with lt have e: "entries (op_id q) (performSync w ?s) = [q\<lparr>retryCount := retryCount q + Suc k\<rparr>]"
    by (simp add: bump_def)
  moreover have "may_start (performSync w ?s)"
    using ih(2) by (rule may_start_again [where i = "op_id q"]) (simp add: e)
  moreover have "fresh w (op_id q) (performSync w ?s)" using ih(3) by (rule performSync_fresh)
  ultimately show ?case by simp
qed

text \<open>
  Claim C10. The replay of an operation with entity \<open>movement\<close> throws \<open>Unknown entity type:
  movement\<close> in every state. Such an operation (its id borne by no other queue entry and
  never issued again, its retry count not above its ceiling) therefore stays in the queue,
  one failed attempt and one more retry count per pass, as long as its retry count is within
  \<open>maxRetries\<close>; the pass that finds the retry count at \<open>maxRetries\<close> evicts it and
  appends its message to \<open>syncErrors\<close>.
\<close>

theorem movement_never_syncs:
  assumes movement: "entity q = ''movement''"
    and start: "may_start st"
    and unique: "entries (op_id q) st = [q]"
    and fresh: "fresh w (op_id q) st"
    and below: "retryCount q \<le> maxRetries q"
  shows "processOperation w q s = (Inl (Error ''Unknown entity type: movement''), s)
    \<and> (\<forall>k \<le> maxRetries q - retryCount q.
          entries (op_id q) ((performSync w ^^ k) st) = [q\<lparr>retryCount := retryCount q + k\<rparr>]
          \<and> verdicts (op_id q) (trace ((performSync w ^^ Suc k) st))
              = verdicts (op_id q) (trace ((performSync w ^^ k) st)) @
                (if k < maxRetries q - retryCount q then [SyncFailed (op_id q)]
                 else [SyncFailed (op_id q), Evicted (op_id q)]))
    \<and> entries (op_id q) ((performSync w ^^ Suc (maxRetries q - retryCount q)) st) = []
    \<and> eviction_message q
         \<in> set (syncErrors ((performSync w ^^ Suc (maxRetries q - retryCount q)) st))"
proof -
  have fails: "processOperation w (q\<lparr>retryCount := r\<rparr>) s'
                 = (Inl (Error ''Unknown entity type: movement''), s')" for r s'
    using movement by (simp add: replay_unknown_entity)
  then have fails': "\<And>s k. \<exists>e s'. processOperation w (q\<lparr>retryCount := retryCount q + k\<rparr>) s = (Inl e, s')"
    by blast
  let ?n = "maxRetries q - retryCount q"
  have upto: "entries (op_id q) ((performSync w ^^ k) st) = [q\<lparr>retryCount := retryCount q + k\<rparr>]
       \<and> may_start ((performSync w ^^ k) st) \<and> fresh w (op_id q) ((performSync w ^^ k) st)"
    if "k \<le> ?n" for k
    using fails' start unique fresh by (rule failing_passes) (use that below in simp)
  have step: "verdicts (op_id q) (trace ((performSync w ^^ Suc k) st))
              = verdicts (op_id q) (trace ((performSync w ^^ k) st)) @
                (if k < ?n then [SyncFailed (op_id q)]
                 else [SyncFailed (op_id q), Evicted (op_id q)])" if "k \<le> ?n" for k
  proof -
    let ?s = "(performSync w ^^ k) st"
    let ?q = "q\<lparr>retryCount := retryCount q + k\<rparr>"
    have f: "\<And>s. \<exists>e s'. processOperation w ?q s = (Inl e, s')" using fails by blast
    have "verdicts (op_id ?q) (trace (performSync w ?s)) =
           verdicts (op_id ?q) (trace ?s) @
           (if retryCount ?q \<ge> maxRetries ?q then [SyncFailed (op_id ?q), Evicted (op_id ?q)]
            else [SyncFailed (op_id ?q)])"
      using f by (rule failing_pass) (use upto [OF that] in simp_all)
    then show ?thesis using that below by (auto simp: not_less)
  qed
  let ?s = "(performSync w ^^ ?n) st"
  let ?q = "q\<lparr>retryCount := retryCount q + ?n\<rparr>"
  have f: "\<And>s. \<exists>e s'. processOperation w ?q s = (Inl e, s')" using fails by blast
  have full: "retryCount ?q \<ge> maxRetries ?q" using below by simp
  have last: "entries (op_id ?q) (performSync w ?s) =
           (if retryCount ?q \<ge> maxRetries ?q then [] else [bump ?q])"
    using f by (rule failing_pass) (use upto [of ?n] in simp_all)
  have msg: "eviction_message ?q \<in> set (syncErrors (performSync w ?s))"
    using f _ _ _ full by (rule failing_pass) (use upto [of ?n] in simp_all)
  have em: "eviction_message ?q = eviction_message q" by (simp add: eviction_message_def)
  show ?thesis
    using fails [of "retryCount q" s] upto step last msg full
    by (simp add: em)
qed

lemma test_world_fresh: "i \<noteq> [] \<Longrightarrow> hd i \<noteq> CHR ''n'' \<Longrightarrow> fresh (test_world b net) i st"
  by (auto simp: fresh_def test_world_def)

lemma idle_simps:
  "may_start (idle (q # qs))"
  "syncQueue (idle qs) = qs"
  "trace (idle qs) = []"
  "clock (idle qs) = 0"
  "syncErrors (idle qs) = []"
  "isOnline (idle qs)"
  "\<not> isSyncing (idle qs)"
  by (simp_all add: idle_def may_start_def)

text \<open>
  Witness for C10: a movement operation with \<open>maxRetries = 2\<close> is still queued after two
  passes, with retry count 2, and is evicted and reported by the third.
\<close>

theorem movement_never_syncs_witness:
  "entries ''m1'' ((performSync (test_world True created) ^^ 2) (idle [movement_op]))
     = [movement_op\<lparr>retryCount := 2\<rparr>]
   \<and> entries ''m1'' ((performSync (test_world True created) ^^ 3) (idle [movement_op])) = []
   \<and> ''Failed to sync movement CREATE after 2 attempts''
        \<in> set (syncErrors ((performSync (test_world True created) ^^ 3) (idle [movement_op])))"
proof -
  let ?w = "test_world True created"
  have 1: "entity movement_op = ''movement''" by (simp add: movement_op_def)
  have 2: "may_start (idle [movement_op])" by (rule idle_simps)
  have 3: "entries (op_id movement_op) (idle [movement_op]) = [movement_op]"
    by (simp add: entries_def idle_simps)
  have 4: "fresh ?w (op_id movement_op) (idle [movement_op])"
    by (rule test_world_fresh) (simp_all add: movement_op_def)
  have 5: "retryCount movement_op \<le> maxRetries movement_op" by (simp add: movement_op_def)
  have m: "eviction_message movement_op = ''Failed to sync movement CREATE after 2 attempts''"
    by (simp add: eviction_message_def movement_op_def show_nat.simps digit_def)
  have vals: "op_id movement_op = ''m1''" "retryCount movement_op = 0"
    "maxRetries movement_op = 2"
    by (simp_all add: movement_op_def)
  note t = movement_never_syncs [OF 1 2 3 4 5, where s = "idle []"]
  have a: "entries ''m1'' ((performSync ?w ^^ 2) (idle [movement_op]))
              = [movement_op\<lparr>retryCount := 2\<rparr>]"
    using t [THEN conjunct2, THEN conjunct1, rule_format, of 2] by (simp add: vals)
  have b: "entries ''m1'' ((performSync ?w ^^ 3) (idle [movement_op])) = []"
    using t [THEN conjunct2, THEN conjunct2, THEN conjunct1] by (simp add: vals)
  have c: "''Failed to sync movement CREATE after 2 attempts''
              \<in> set (syncErrors ((performSync ?w ^^ 3) (idle [movement_op])))"
    using t [THEN conjunct2, THEN conjunct2, THEN conjunct2] by (simp add: vals m)
  from a b c show ?thesis by simp
qed

lemma remote_calls_append: "remote_calls (xs @ ys) = remote_calls xs @ remote_calls ys"
  by (simp add: remote_calls_def)

lemma interleave_quiet_calls:
  "remote_calls (trace (interleave w st)) = remote_calls (trace st)"
  "syncErrors (interleave w st) = syncErrors st"
proof -
  have "remote_calls (trace (foldl (\<lambda>s r. addToQueue w r s) s rs)) = remote_calls (trace s)
      \<and> syncErrors (foldl (\<lambda>s r. addToQueue w r s) s rs) = syncErrors s" for s rs
    by (induction rs arbitrary: s)
       (simp_all add: addToQueue_def emit_def tick_def Let_def remote_calls_def)
  then show "remote_calls (trace (interleave w st)) = remote_calls (trace st)"
    "syncErrors (interleave w st) = syncErrors st"
    by (simp_all add: interleave_def tick_def)
qed

lemma upper_examples:
  "toUpperCase ''stock'' = ''STOCK''" "toUpperCase ''complete'' = ''COMPLETE''"
  "toUpperCase ''cancel'' = ''CANCEL''" "toUpperCase ''refund'' = ''REFUND''"
  "toUpperCase ''report'' = ''REPORT''"
  by code_simp+

lemma split_examples:
  "split_on CHR ''_'' ''product_stock_update'' = [''product'', ''stock'', ''update'']"
  "split_on CHR ''_'' ''order_complete'' = [''order'', ''complete'']"
  "split_on CHR ''_'' ''order_cancel'' = [''order'', ''cancel'']"
  "split_on CHR ''_'' ''order_refund'' = [''order'', ''refund'']"
  "split_on CHR ''_'' ''sales_report'' = [''sales'', ''report'']"
  by simp_all

lemma router_builds_unknown_types:
  "map (\<lambda>q. (entity q, type q))
     (syncQueue (snd (addToSyncQueue w ''product_stock_update'' ep m p s)))
   = map (\<lambda>q. (entity q, type q)) (syncQueue s) @ [(''product'', ''STOCK'')]"
  "map (\<lambda>q. (entity q, type q))
     (syncQueue (snd (addToSyncQueue w ''order_complete'' ep m p s)))
   = map (\<lambda>q. (entity q, type q)) (syncQueue s) @ [(''order'', ''COMPLETE'')]"
  "map (\<lambda>q. (entity q, type q))
     (syncQueue (snd (addToSyncQueue w ''order_cancel'' ep m p s)))
   = map (\<lambda>q. (entity q, type q)) (syncQueue s) @ [(''order'', ''CANCEL'')]"
  "map (\<lambda>q. (entity q, type q))
     (syncQueue (snd (addToSyncQueue w ''order_refund'' ep m p s)))
   = map (\<lambda>q. (entity q, type q)) (syncQueue s) @ [(''order'', ''REFUND'')]"
  "map (\<lambda>q. (entity q, type q))
     (syncQueue (snd (addToSyncQueue w ''sales_report'' ep m p s)))
   = map (\<lambda>q. (entity q, type q)) (syncQueue s) @ [(''sales'', ''REPORT'')]"
  by (simp_all add: addToSyncQueue_def split_examples at_index_def entityMap_def typeMap_def
        upper_examples addToQueue_def emit_def tick_def Let_def)

text \<open>
  Claim C9, amended. An operation whose entity is product, user, order or supplier and whose
  type is none of CREATE, UPDATE and DELETE is replayed without any effect: no remote call and
  no entry in \<open>syncErrors\<close> comes from its step, and the next pass removes it from the
  queue and logs it as synced. The router builds such operations: type STOCK for a product
  stock update, COMPLETE, CANCEL and REFUND for the order lifecycle calls.
\<close>

theorem unknown_type_dropped_as_success:
  assumes known_entity: "entity q = ''product'' \<or> entity q = ''user'' \<or> entity q = ''order'' \<or>
           entity q = ''supplier''"
    and unknown_type: "type q \<noteq> ''CREATE''" "type q \<noteq> ''UPDATE''" "type q \<noteq> ''DELETE''"
    and start: "may_start st"
    and unique: "entries (op_id q) st = [q]"
    and fresh: "fresh w (op_id q) st"
  shows "processOperation w q s = (Inr (), s)
    \<and> remote_calls (trace (sync_step w q s)) = remote_calls (trace s)
    \<and> syncErrors (sync_step w q s) = syncErrors s
    \<and> entries (op_id q) (performSync w st) = []
    \<and> verdicts (op_id q) (trace (performSync w st))
        = verdicts (op_id q) (trace st) @ [Synced (op_id q)]
    \<and> map (\<lambda>q. (entity q, type q))
          (syncQueue (snd (addToSyncQueue w ''product_stock_update'' ep m p s)))
        = map (\<lambda>q. (entity q, type q)) (syncQueue s) @ [(''product'', ''STOCK'')]
    \<and> map (\<lambda>q. (entity q, type q))
          (syncQueue (snd (addToSyncQueue w ''order_complete'' ep m p s)))
        = map (\<lambda>q. (entity q, type q)) (syncQueue s) @ [(''order'', ''COMPLETE'')]
    \<and> map (\<lambda>q. (entity q, type q))
          (syncQueue (snd (addToSyncQueue w ''order_cancel'' ep m p s)))
        = map (\<lambda>q. (entity q, type q)) (syncQueue s) @ [(''order'', ''CANCEL'')]
    \<and> map (\<lambda>q. (entity q, type q))
          (syncQueue (snd (addToSyncQueue w ''order_refund'' ep m p s)))
        = map (\<lambda>q. (entity q, type q)) (syncQueue s) @ [(''order'', ''REFUND'')]"
proof -
  have p: "processOperation w q s' = (Inr (), s')" for s'
    using known_entity unknown_type by (rule replay_unknown_type)
  have step: "sync_step w q s
      = emit (Synced (op_id q)) (removeFromQueue (op_id q) (interleave w (emit (Attempt q) s)))"
    by (simp add: sync_step_def p record_outcome_def)
  have r: "remote_calls (trace (sync_step w q s)) = remote_calls (trace s)"
    unfolding step
    by (simp add: emit_def removeFromQueue_def remote_calls_append interleave_quiet_calls)
       (simp add: remote_calls_def)
  have e: "syncErrors (sync_step w q s) = syncErrors s"
    unfolding step
    by (simp add: emit_def removeFromQueue_def interleave_quiet_calls)
  from start unique fresh obtain sa r' s1 where
    p': "processOperation w q (interleave w (emit (Attempt q) sa)) = (r', s1)"
    and en: "entries (op_id q) (performSync w st) =
       (case r' of Inr u \<Rightarrow> []
        | Inl e \<Rightarrow> if retryCount q \<ge> maxRetries q then [] else [bump q])"
    and v: "verdicts (op_id q) (trace (performSync w st)) =
       verdicts (op_id q) (trace st) @
       (case r' of Inr u \<Rightarrow> [Synced (op_id q)]
        | Inl e \<Rightarrow> if retryCount q \<ge> maxRetries q
                   then [SyncFailed (op_id q), Evicted (op_id q)]
                   else [SyncFailed (op_id q)])"
    by (rule pass_own)
  from p' have "r' = Inr ()" by (simp add: p)
  with en v p r e show ?thesis by (simp add: router_builds_unknown_types)
qed

text \<open>Witness for C9: a queued STOCK operation on a product.\<close>

theorem unknown_type_dropped_as_success_witness:
  "processOperation (test_world True created) stock_op (idle [stock_op])
     = (Inr (), idle [stock_op])
   \<and> entries ''q1'' (performSync (test_world True created) (idle [stock_op])) = []
   \<and> verdicts ''q1'' (trace (performSync (test_world True created) (idle [stock_op])))
       = [Synced ''q1'']"
proof -
  let ?w = "test_world True created"
  have 1: "entity stock_op = ''product'' \<or> entity stock_op = ''user'' \<or>
           entity stock_op = ''order'' \<or> entity stock_op = ''supplier''"
    by (simp add: stock_op_def)
  have 2: "type stock_op \<noteq> ''CREATE''" "type stock_op \<noteq> ''UPDATE''" "type stock_op \<noteq> ''DELETE''"
    by (simp_all add: stock_op_def)
  have 3: "may_start (idle [stock_op])" by (rule idle_simps)
  have 4: "entries (op_id stock_op) (idle [stock_op]) = [stock_op]"
    by (simp add: entries_def idle_simps)
  have 5: "fresh ?w (op_id stock_op) (idle [stock_op])"
    by (rule test_world_fresh) (simp_all add: stock_op_def)
  have i: "op_id stock_op = ''q1''" by (simp add: stock_op_def)
  show ?thesis
    using unknown_type_dropped_as_success [OF 1 2 3 4 5, where s = "idle [stock_op]"]
    by (simp add: i idle_simps verdicts_def)
qed

text \<open>
  Counterexample to C9 as stated: the operation that the router builds for an offline sales
  report has type REPORT and entity \<open>sales\<close>. Its type is none of CREATE, UPDATE and DELETE,
  yet the pass does not remove it: the replay throws on the unknown entity, and the operation
  stays queued with retry count 1.
\<close>

theorem unknown_entity_kept_counterexample:
  "type sales_op \<notin> {''CREATE'', ''UPDATE'', ''DELETE''}
   \<and> map (\<lambda>q. (entity q, type q))
        (syncQueue (snd (salesReports_generateSalesReport (test_world False created)
           (JObj [(''start_date'', JStr ''2024-01-01''), (''end_date'', JStr ''2024-01-31'')])
           (idle []))))
      = [(entity sales_op, type sales_op)]
   \<and> entries ''q2'' (performSync (test_world True created) (idle [sales_op]))
      = [sales_op\<lparr>retryCount := 1\<rparr>]
   \<and> verdicts ''q2'' (trace (performSync (test_world True created) (idle [sales_op])))
      = [SyncFailed ''q2'']"
proof -
  let ?w = "test_world True created"
  let ?d = "JObj [(''start_date'', JStr ''2024-01-01''), (''end_date'', JStr ''2024-01-31'')]"
  have a: "type sales_op \<notin> {''CREATE'', ''UPDATE'', ''DELETE''}" by (simp add: sales_op_def)
  have "salesReports_generateSalesReport (test_world False created) ?d (idle [])
      = andThen (invoke (test_world False created) ''get_sales_report'' ?d) (\<lambda>result.
        andThen (addToSyncQueue (test_world False created) ''sales_report''
                   ''/sales/reports/sales'' ''POST'' ?d) (\<lambda>u.
        andThen (toast_success ''Created offline. Will sync when online.'') (\<lambda>u.
        resolve result))) (idle [])"
    unfolding salesReports_generateSalesReport_def
    by (simp add: router_offline [OF test_world_offline] createOfflineAndQueue_def)
  also have "\<dots> = (Inr (JNum 7),
          (idle [])\<lparr>syncQueue := syncQueue (idle []) @
                 [queued (test_world False created) (clock (idle []) + 1) ''sales'' ''report''
                    ''/sales/reports/sales'' ''POST'' ?d],
              trace := trace (idle []) @ [Local ''get_sales_report'' ?d,
                 Enqueue (queued (test_world False created) (clock (idle []) + 1) ''sales''
                    ''report'' ''/sales/reports/sales'' ''POST'' ?d),
                 Toast ''Created offline. Will sync when online.''],
              clock := clock (idle []) + 2\<rparr>)"
    by (rule offline_and_queue) (simp_all add: test_world_simps)
  finally have b: "map (\<lambda>q. (entity q, type q))
        (syncQueue (snd (salesReports_generateSalesReport (test_world False created) ?d (idle []))))
      = [(entity sales_op, type sales_op)]"
    by (simp add: idle_simps queued_def typeMap_def entityMap_def upper_examples sales_op_def)
  have f: "\<And>s. \<exists>e s'. processOperation ?w sales_op s = (Inl e, s')"
    by (simp add: replay_unknown_entity sales_op_def)
  have 3: "may_start (idle [sales_op])" by (rule idle_simps)
  have 4: "entries (op_id sales_op) (idle [sales_op]) = [sales_op]"
    by (simp add: entries_def idle_simps)
  have 5: "fresh ?w (op_id sales_op) (idle [sales_op])"
    by (rule test_world_fresh) (simp_all add: sales_op_def)
  have c: "entries ''q2'' (performSync ?w (idle [sales_op])) = [sales_op\<lparr>retryCount := 1\<rparr>]"
    using failing_pass(1) [OF f 3 4 5] by (simp add: sales_op_def bump_def)
  have d: "verdicts ''q2'' (trace (performSync ?w (idle [sales_op]))) = [SyncFailed ''q2'']"
    using failing_pass(2) [OF f 3 4 5] by (simp add: sales_op_def idle_simps verdicts_def)
  from a b c d show ?thesis by blast
qed

text \<open>In the test environment with a server that answers 500, a product CREATE replay throws.\<close>

lemma replay_server_error:
  assumes "entity q = ''product''" "type q = ''CREATE''"
  shows "processOperation (test_world True server_error) q s
     = (Inl (ApiError 500 ''Request failed with status code 500''),
        emit (Remote \<lparr>http_method = ''POST'', url = ''/inventory/products'', body = data q,
                      timeout = 10000\<rparr>) (tick (probed s)))"
proof -
  let ?w = "test_world True server_error"
  let ?req = "\<lparr>http_method = ''POST'', url = ''/inventory/products'', body = data q,
                timeout = 10000\<rparr>"
  have ax: "axios ?w (\<lambda>s. 200 \<le> s \<and> s < 300) ?req (probed s)
          = (Inl (bad_status \<lparr>status = 500, rdata = JNull\<rparr>), emit (Remote ?req) (tick (probed s)))"
    by (simp add: test_world_axios server_error_def)
  have he: "handleError (bad_status \<lparr>status = 500, rdata = JNull\<rparr>)
              = ApiError 500 ''Request failed with status code 500''"
    by (simp add: handleError_def bad_status_def nullish_def show_nat.simps digit_def)
  have "router_create ?w ''/inventory/products'' (data q) ''create_product'' ''product_create'' s
      = (Inl (ApiError 500 ''Request failed with status code 500''), emit (Remote ?req) (tick (probed s)))"
    using api_request_failed [OF ax]
    by (simp add: router_mutation_online [OF test_world_online] tryCatch_def andThen_def
          api_post_def he reject_def)
  then show ?thesis
    using assms
    by (simp add: processOperation_def syncProduct_def void_def inventoryService_createProduct_def
          products_create_def andThen_def)
qed

lemma test_world_interleave: "interleave (test_world b net) st = tick st"
  by (simp add: interleave_def test_world_simps)

text \<open>One pass over a queue that holds one product CREATE, against the failing server.\<close>

lemma failing_single_pass:
  assumes "syncQueue st = [q]" "isOnline st" "\<not> isSyncing st"
    "entity q = ''product''" "type q = ''CREATE''"
  shows "performSync (test_world True server_error) st =
     st\<lparr>syncQueue := (if retryCount q \<ge> maxRetries q then []
                       else [q\<lparr>retryCount := retryCount q + 1\<rparr>]),
        lastSyncAttempt := Some (1000 + clock st),
        syncErrors := (if retryCount q \<ge> maxRetries q then [eviction_message q] else []),
        trace := trace st @
          [Attempt q,
           Remote \<lparr>http_method = ''GET'', url = ''/auth/me'', body = JUndefined, timeout = 5000\<rparr>,
           Remote \<lparr>http_method = ''POST'', url = ''/inventory/products'', body = data q,
                   timeout = 10000\<rparr>,
           SyncFailed (op_id q)] @
          (if retryCount q \<ge> maxRetries q then [Evicted (op_id q)] else []),
        clock := clock st + 4\<rparr>"
  using assms
  by (cases st)
     (simp add: performSync_def Let_def sync_step_def test_world_interleave
        replay_server_error [OF assms(4,5)] record_outcome_def setSyncing_def clearSyncErrors_def
        incrementRetryCount_def removeFromQueue_def addSyncError_def emit_def tick_def probed_def
        test_world_simps)

lemma failing_single_passes:
  assumes "syncQueue st = [q]" "isOnline st" "\<not> isSyncing st"
    "entity q = ''product''" "type q = ''CREATE''" "retryCount q + k \<le> maxRetries q"
  shows "syncQueue ((performSync (test_world True server_error) ^^ k) st)
           = [q\<lparr>retryCount := retryCount q + k\<rparr>]
       \<and> isOnline ((performSync (test_world True server_error) ^^ k) st)
       \<and> \<not> isSyncing ((performSync (test_world True server_error) ^^ k) st)
       \<and> (0 < k \<longrightarrow> syncErrors ((performSync (test_world True server_error) ^^ k) st) = [])
       \<and> attempts (trace ((performSync (test_world True server_error) ^^ k) st))
           = attempts (trace st) @ map (\<lambda>j. q\<lparr>retryCount := retryCount q + j\<rparr>) [0..<k]"
  using assms(6)
proof (induction k)
  case 0
  show ?case using assms(1-3) by simp
next
  case (Suc k)
  let ?s = "(performSync (test_world True server_error) ^^ k) st"
  let ?q = "q\<lparr>retryCount := retryCount q + k\<rparr>"
  from Suc have ih: "syncQueue ?s = [?q]" "isOnline ?s" "\<not> isSyncing ?s"
    "attempts (trace ?s) = attempts (trace st) @ map (\<lambda>j. q\<lparr>retryCount := retryCount q + j\<rparr>) [0..<k]"
    by simp_all
  have e: "entity ?q = ''product''" "type ?q = ''CREATE''" using assms(4,5) by simp_all
  note pass = failing_single_pass [OF ih(1-3) e]
  have lt: "\<not> maxRetries ?q \<le> retryCount ?q" using Suc.prems by simp
  show ?case
    using lt ih(2-4) by (simp add: pass attempts_append)
qed

text \<open>
  Claim C1, at the failing input: one queued product CREATE with \<open>maxRetries = 3\<close>, and a
  server that answers every replay with status 500. After three passes, each with one failed
  attempt, the operation is still queued, with retry count 3, and \<open>syncErrors\<close> is empty.
  Only the fourth failed attempt evicts it, with a message that says 3 attempts.
\<close>

theorem retry_ceiling_off_by_one:
  "maxRetries milk_op = 3
   \<and> syncQueue ((performSync (test_world True server_error) ^^ 3) (idle [milk_op]))
      = [milk_op\<lparr>retryCount := 3\<rparr>]
   \<and> syncErrors ((performSync (test_world True server_error) ^^ 3) (idle [milk_op])) = []
   \<and> attempts (trace ((performSync (test_world True server_error) ^^ 3) (idle [milk_op])))
      = [milk_op, milk_op\<lparr>retryCount := 1\<rparr>, milk_op\<lparr>retryCount := 2\<rparr>]
   \<and> syncQueue ((performSync (test_world True server_error) ^^ 4) (idle [milk_op])) = []
   \<and> syncErrors ((performSync (test_world True server_error) ^^ 4) (idle [milk_op]))
      = [''Failed to sync product CREATE after 3 attempts'']
   \<and> attempts (trace ((performSync (test_world True server_error) ^^ 4) (idle [milk_op])))
      = [milk_op, milk_op\<lparr>retryCount := 1\<rparr>, milk_op\<lparr>retryCount := 2\<rparr>,
         milk_op\<lparr>retryCount := 3\<rparr>]"
proof -
  let ?w = "test_world True server_error"
  let ?s3 = "(performSync ?w ^^ 3) (idle [milk_op])"
  have v: "retryCount milk_op = 0" "maxRetries milk_op = 3" "op_id milk_op = ''q4''"
    "entity milk_op = ''product''" "type milk_op = ''CREATE''"
    by (simp_all add: milk_op_def)
  have "syncQueue ?s3 = [milk_op\<lparr>retryCount := retryCount milk_op + 3\<rparr>]
       \<and> isOnline ?s3 \<and> \<not> isSyncing ?s3 \<and> (0 < (3::nat) \<longrightarrow> syncErrors ?s3 = [])
       \<and> attempts (trace ?s3)
           = attempts (trace (idle [milk_op])) @
             map (\<lambda>j. milk_op\<lparr>retryCount := retryCount milk_op + j\<rparr>) [0..<3]"
    by (rule failing_single_passes) (simp_all add: idle_simps v)
  then have three: "syncQueue ?s3 = [milk_op\<lparr>retryCount := 3\<rparr>]" "isOnline ?s3"
    "\<not> isSyncing ?s3" "syncErrors ?s3 = []"
    "attempts (trace ?s3) = [milk_op\<lparr>retryCount := 0\<rparr>, milk_op\<lparr>retryCount := 1\<rparr>,
        milk_op\<lparr>retryCount := 2\<rparr>]"
    by (simp_all add: v idle_simps upt_rec [of 0] upt_rec [of 1] upt_rec [of 2] eval_nat_numeral)
  have z: "milk_op\<lparr>retryCount := 0\<rparr> = milk_op" by (simp add: milk_op_def)
  have e: "entity (milk_op\<lparr>retryCount := 3\<rparr>) = ''product''"
    "type (milk_op\<lparr>retryCount := 3\<rparr>) = ''CREATE''"
    by (simp_all add: v)
  have m: "eviction_message (milk_op\<lparr>retryCount := 3\<rparr>)
             = ''Failed to sync product CREATE after 3 attempts''"
    by (simp add: eviction_message_def v show_nat.simps digit_def)
  note pass = failing_single_pass [OF three(1-3) e]
  have four: "(performSync ?w ^^ 4) (idle [milk_op]) = performSync ?w ?s3"
    by (simp add: eval_nat_numeral)
  show ?thesis
    unfolding four pass using three by (simp add: v m z attempts_append)
qed

lemma enqueued_verdict [simp]:
  "enqueued (xs @ [Synced i]) = enqueued xs"
  "enqueued (xs @ [SyncFailed i]) = enqueued xs"
  "enqueued (xs @ [SyncFailed i, Evicted i]) = enqueued xs"
  "enqueued (xs @ Attempt q # ys) = enqueued xs @ enqueued ys"
  by (simp_all add: enqueued_append)

lemma newcomers_simps:
  "j \<in> S \<Longrightarrow> newcomers S (removeFromQueue j st) = newcomers S st"
  "j \<in> S \<Longrightarrow> newcomers S (incrementRetryCount j st) = newcomers S st"
  "newcomers S (emit ev st) = newcomers S st"
  "newcomers S (addSyncError m st) = newcomers S st"
proof -
  assume j: "j \<in> S"
  have "filter (\<lambda>q. op_id q \<notin> S) (filter (\<lambda>q. op_id q \<noteq> j) xs) = filter (\<lambda>q. op_id q \<notin> S) xs"
    for xs :: "QueuedOperation list"
    using j by (induction xs) auto
  then show "newcomers S (removeFromQueue j st) = newcomers S st"
    by (simp add: newcomers_def removeFromQueue_def del: filter_filter)
  have "filter (\<lambda>q. op_id q \<notin> S)
          (map (\<lambda>q. if op_id q = j then q\<lparr>retryCount := retryCount q + 1\<rparr> else q) xs)
        = filter (\<lambda>q. op_id q \<notin> S) xs" for xs
    using j by (induction xs) auto
  then show "newcomers S (incrementRetryCount j st) = newcomers S st"
    by (simp add: newcomers_def incrementRetryCount_def)
next
  show "newcomers S (emit ev st) = newcomers S st" by (simp add: newcomers_def emit_def)
  show "newcomers S (addSyncError m st) = newcomers S st"
    by (simp add: newcomers_def addSyncError_def)
qed

lemma sync_step_newcomers:
  assumes "\<forall>t\<ge>clock s. new_id w t \<notin> S" and "op_id q \<in> S"
  shows "\<exists>new. enqueued (trace (sync_step w q s)) = enqueued (trace s) @ new
             \<and> newcomers S (sync_step w q s) = newcomers S s @ new"
proof -
  obtain r st1 where p: "processOperation w q (interleave w (emit (Attempt q) s)) = (r, st1)"
    by force
  from p obtain tr c where
    st1: "st1 = s\<lparr>syncQueue := syncQueue s @ enqueued tr, trace := trace s @ Attempt q # tr,
               clock := c\<rparr>"
    and ids: "\<forall>e \<in> set (enqueued tr). retryCount e = 0
        \<and> (\<exists>t. clock s \<le> t \<and> t < c \<and> op_id e = new_id w t)"
    by (rule replay_state)
  have "op_id e \<notin> S" if "e \<in> set (enqueued tr)" for e
    using ids that assms(1) by metis
  then have keep: "filter (\<lambda>q. op_id q \<notin> S) (enqueued tr) = enqueued tr"
    by (simp add: filter_id_conv)
  have n1: "newcomers S st1 = newcomers S s @ enqueued tr"
    by (simp add: newcomers_def st1 keep)
  have t1: "enqueued (trace st1) = enqueued (trace s) @ enqueued tr"
    by (simp add: st1)
  have tr_emit: "trace (emit ev x) = trace x @ [ev]" for ev x by (simp add: emit_def)
  have tr_keep: "trace (removeFromQueue j x) = trace x" "trace (incrementRetryCount j x) = trace x"
    "trace (addSyncError m x) = trace x" for j m x
    by (simp_all add: removeFromQueue_def incrementRetryCount_def addSyncError_def)
  have "enqueued (trace (sync_step w q s)) = enqueued (trace s) @ enqueued tr
      \<and> newcomers S (sync_step w q s) = newcomers S s @ enqueued tr"
    unfolding sync_step_def p
    using n1 t1 assms(2)
    by (cases r)
       (simp_all add: record_outcome_def Let_def newcomers_simps tr_emit tr_keep enqueued_append)
  then show ?thesis by blast
qed

lemma sync_loop_newcomers:
  assumes "\<forall>t\<ge>clock s. new_id w t \<notin> S" and "op_id ` set ops \<subseteq> S"
  shows "\<exists>new. enqueued (trace (sync_loop w ops s)) = enqueued (trace s) @ new
             \<and> newcomers S (sync_loop w ops s) = newcomers S s @ new"
  using assms
proof (induction ops arbitrary: s)
  case Nil
  show ?case by simp
next
  case (Cons q ops)
  from Cons.prems have q: "op_id q \<in> S" and rest: "op_id ` set ops \<subseteq> S" by auto
  obtain a where a: "enqueued (trace (sync_step w q s)) = enqueued (trace s) @ a"
    "newcomers S (sync_step w q s) = newcomers S s @ a"
    using sync_step_newcomers [OF Cons.prems(1) q] by blast
  have "\<forall>t\<ge>clock (sync_step w q s). new_id w t \<notin> S"
    using Cons.prems(1) sync_step_clock [of s w q] by (meson le_trans)
  then obtain b where
    "enqueued (trace (sync_loop w ops (sync_step w q s))) = enqueued (trace (sync_step w q s)) @ b"
    "newcomers S (sync_loop w ops (sync_step w q s)) = newcomers S (sync_step w q s) @ b"
    using Cons.IH rest by blast
  with a show ?case by simp
qed

lemma performSync_attempts:
  "may_start st \<Longrightarrow> attempts (trace (performSync w st)) = attempts (trace st) @ syncQueue st"
  by (simp add: performSync_run setSyncing_False_simps sync_loop_attempts pass_start_simps)

text \<open>
  Claim C6. A pass replays exactly the operations of the queue as it is when the pass starts,
  in queue order, which is enqueue order since \<open>addToQueue\<close> appends. Operations enqueued
  while the pass runs are not attempted in it; when the environment issues no id of the
  snapshot again, they are exactly the entries of the final queue that do not stem from the
  snapshot, so the next pass finds them.
\<close>

theorem pass_replays_snapshot_in_order:
  assumes "may_start st"
  shows "attempts (trace (performSync w st)) = attempts (trace st) @ syncQueue st
    \<and> ((\<forall>t\<ge>clock st. new_id w t \<notin> op_id ` set (syncQueue st)) \<longrightarrow>
         enqueued (trace (performSync w st))
           = enqueued (trace st) @ newcomers (op_id ` set (syncQueue st)) (performSync w st))
    \<and> syncQueue (addToQueue w r st) = syncQueue st @ [last (syncQueue (addToQueue w r st))]"
proof (intro conjI impI)
  show "attempts (trace (performSync w st)) = attempts (trace st) @ syncQueue st"
    using assms by (rule performSync_attempts)
  show "syncQueue (addToQueue w r st) = syncQueue st @ [last (syncQueue (addToQueue w r st))]"
    by (simp add: addToQueue_def emit_def tick_def Let_def)
next
  let ?S = "op_id ` set (syncQueue st)"
  assume f: "\<forall>t\<ge>clock st. new_id w t \<notin> ?S"
  have f0: "\<forall>t\<ge>clock (pass_start w st). new_id w t \<notin> ?S"
    using f by (simp add: pass_start_simps)
  obtain new where
    n: "enqueued (trace (sync_loop w (syncQueue st) (pass_start w st)))
          = enqueued (trace (pass_start w st)) @ new"
       "newcomers ?S (sync_loop w (syncQueue st) (pass_start w st))
          = newcomers ?S (pass_start w st) @ new"
    using sync_loop_newcomers [OF f0 subset_refl] by blast
  have "newcomers ?S (pass_start w st) = []"
    by (simp add: newcomers_def pass_start_simps filter_empty_conv)
  with n show "enqueued (trace (performSync w st))
           = enqueued (trace st) @ newcomers ?S (performSync w st)"
    using assms
    by (simp add: performSync_run setSyncing_False_simps pass_start_simps newcomers_def)
qed

text \<open>
  Witness for C6: another task enqueues an operation while the pass awaits the replay of the
  only queued one; the pass attempts the queued one alone, and the new one waits behind it.
\<close>

theorem pass_replays_snapshot_in_order_witness:
  "attempts (trace (performSync busy_world (idle [movement_op]))) = [movement_op]
   \<and> map op_id (syncQueue (performSync busy_world (idle [movement_op]))) = [''m1'', ''n2'']
   \<and> enqueued (trace (performSync busy_world (idle [movement_op])))
       = newcomers {''m1''} (performSync busy_world (idle [movement_op]))"
proof -
  have f: "\<forall>t\<ge>clock (idle [movement_op]).
             new_id busy_world t \<notin> op_id ` set (syncQueue (idle [movement_op]))"
    by (simp add: busy_world_def test_world_def idle_simps movement_op_def)
  note t = pass_replays_snapshot_in_order [OF idle_simps(1) [of movement_op "[]"],
      where w = busy_world]
  have a: "attempts (trace (performSync busy_world (idle [movement_op]))) = [movement_op]"
    using t by (simp add: idle_simps)
  have c: "enqueued (trace (performSync busy_world (idle [movement_op])))
       = newcomers {''m1''} (performSync busy_world (idle [movement_op]))"
    using t f by (simp add: idle_simps movement_op_def)
  have p: "processOperation busy_world movement_op s
             = (Inl (Error ''Unknown entity type: movement''), s)" for s
    by (simp add: replay_unknown_entity movement_op_def)
  have b: "map op_id (syncQueue (performSync busy_world (idle [movement_op]))) = [''m1'', ''n2'']"
  proof -
    have v: "op_id movement_op = ''m1''" "retryCount movement_op = 0"
      "maxRetries movement_op = 2"
      by (simp_all add: movement_op_def)
    have w: "arrivals busy_world (Suc 0) =
               [\<lparr>req_entity = ''product'', req_type = ''UPDATE'',
                 req_data = JObj [(''id'', JNum 4), (''price'', JNum 3)], req_maxRetries = 5\<rparr>]"
      "new_id busy_world (Suc (Suc 0)) = ''n2''"
      by (simp_all add: busy_world_def test_world_def show_nat.simps digit_def)
    show ?thesis
      by (simp add: performSync_def idle_def Let_def setSyncing_def clearSyncErrors_def tick_def
            sync_step_def emit_def interleave_def p record_outcome_def incrementRetryCount_def
            addToQueue_def v w)
  qed
  from a b c show ?thesis by simp
qed













end
